theory Spec2Isabelle
  imports Main "HOL-Library.AList" "HOL-Library.Sublist"
begin

section \<open>The stitching script \<open>parallel_examples/awsbatch/do_stitch.py\<close>\<close>

text \<open>
  The script is one sequential routine, \<open>main\<close>, that talks to S3, GDAL, RIOS and the
  pyshepseg library. The embedding keeps the routine's own computations (string
  formatting, the tile dictionary, the batching loop, the parsing of the locators and of
  the user function name, the construction of the concurrency style) as HOL functions, and
  records every call to an outside library as an event of a trace. What an outside call
  returns, and whether it raises, is read from an environment.
\<close>

subsection \<open>Python strings\<close>

text \<open>\<open>str(n)\<close> for a Python \<open>int\<close>, as \<open>'{}'.format(n)\<close> prints it.\<close>

definition digit_char :: "nat \<Rightarrow> char" where
  "digit_char d = char_of (48 + d)"

function digits :: "nat \<Rightarrow> string" where
  "digits n = (if n < 10 then [digit_char n] else digits (n div 10) @ [digit_char (n mod 10)])"
  by pat_completeness auto
termination
  by (relation "measure id") auto

definition str_int :: "int \<Rightarrow> string" where
  "str_int i = (if i < 0 then CHR ''-'' # digits (nat (- i)) else digits (nat i))"

text \<open>\<open>s.split(c)\<close> for a one-character separator: never an empty list.\<close>

fun split_on :: "char \<Rightarrow> string \<Rightarrow> string list" where
  "split_on c [] = [[]]"
| "split_on c (x # xs) =
     (if x = c then [] # split_on c xs
      else (case split_on c xs of
              [] \<Rightarrow> [[x]]
            | w # ws \<Rightarrow> (x # w) # ws))"

text \<open>\<open>sep.join(ws)\<close>.\<close>

fun join :: "string \<Rightarrow> string list \<Rightarrow> string" where
  "join sep [] = []"
| "join sep [w] = w"
| "join sep (w # v # ws) = w @ sep @ join sep (v # ws)"

text \<open>\<open>os.path.basename\<close> and the two-argument \<open>os.path.join\<close> of \<open>posixpath\<close>.\<close>

definition basename :: "string \<Rightarrow> string" where
  "basename p = rev (takeWhile (\<lambda>c. c \<noteq> CHR ''/'') (rev p))"

definition path_join :: "string \<Rightarrow> string \<Rightarrow> string" where
  "path_join a b =
     (if b \<noteq> [] \<and> hd b = CHR ''/'' then b
      else if a = [] \<or> last a = CHR ''/'' then a @ b
      else a @ ''/'' @ b)"

subsection \<open>Tile names\<close>

text \<open>
  \<open>'{}_{}_{}.{}'.format(cmdargs.tileprefix, col, row, 'tif')\<close>, written twice in
  \<open>main\<close> (where the tile dictionary is built and where the tiles are deleted), and the
  GDAL path \<open>'/vsis3/' + cmdargs.bucket + '/' + key\<close> of the first place.
\<close>

definition format_tile :: "string \<Rightarrow> int \<Rightarrow> int \<Rightarrow> string \<Rightarrow> string" where
  "format_tile pfx col row ext =
     pfx @ ''_'' @ str_int col @ ''_'' @ str_int row @ ''.'' @ ext"

definition tile_key :: "string \<Rightarrow> int \<times> int \<Rightarrow> string" where
  "tile_key pfx cr = format_tile pfx (fst cr) (snd cr) ''tif''"

definition tile_filename :: "string \<Rightarrow> string \<Rightarrow> int \<times> int \<Rightarrow> string" where
  "tile_filename bkt pfx cr = ''/vsis3/'' @ bkt @ ''/'' @ tile_key pfx cr"

text \<open>
  \<open>tileFilenames\<close> is a Python dict filled in the order of \<open>colRowList\<close>. A dict keeps
  the position of a key's first insertion and the value of its last one, which is what
  \<open>AList.update\<close> does on an association list.
\<close>

type_synonym tile_dict = "((int \<times> int) \<times> string) list"

definition build_tileFilenames :: "string \<Rightarrow> string \<Rightarrow> (int \<times> int) list \<Rightarrow> tile_dict" where
  "build_tileFilenames bkt pfx colRowList =
     foldl (\<lambda>d cr. AList.update cr (tile_filename bkt pfx cr) d) [] colRowList"

text \<open>The list \<open>objs\<close> of the tile cleanup: one key per key of the dict, in dict order.\<close>

definition tile_objs :: "string \<Rightarrow> tile_dict \<Rightarrow> string list" where
  "tile_objs pfx tileFilenames = map (\<lambda>(cr, filename). tile_key pfx cr) tileFilenames"

subsection \<open>Command line, outside values, events\<close>

text \<open>The namespace that \<open>getCmdargs\<close> returns; an option that was not given is \<open>None\<close>.\<close>

record cmdargs =
  bucket :: string
  infile :: string
  outfile :: string
  tileprefix :: string
  pickle :: string
  overlapsize :: int
  stats :: "string option"
  spatialstats :: "string option"
  nogdalstats :: bool
  noremove :: bool
  statsreadworkers :: int
  readworkerstimeouts :: "int option"

text \<open>Values that \<open>main\<close> hands on without looking inside (JSON and pickle contents).\<close>

datatype pyvalue = PyNone | PyBool bool | PyInt int | PyStr string | PyList "pyvalue list"

text \<open>An attribute of an imported module.\<close>

datatype pyattr = PyFunction string | PyOtherAttr string

text \<open>
  The keyword arguments of \<open>applier.ConcurrencyStyle(...)\<close>: a keyword that is not
  passed is \<open>None\<close>, and RIOS then uses its own default.
\<close>

record concurrencyStyle =
  numReadWorkers :: int
  readBufferPopTimeout :: "int option"
  readBufferInsertTimeout :: "int option"
  computeBufferInsertTimeout :: "int option"
  computeBufferPopTimeout :: "int option"

text \<open>The calls that leave the script, with the arguments \<open>main\<close> passes.\<close>

datatype event =
    S3DownloadFileobj string string
  | GdalOpen string
  | Mkdtemp
  | Finalize string string tile_dict pyvalue int string bool
  | S3DeleteObjects string "string list"
  | GetRasterBand int
  | GetDefaultRAT
  | GetColOfUsage_PixelCount
  | RatReadAsArray
  | EstimateStatsFromHisto pyvalue
  | WriteRandomColourTable int
  | AddOverviews
  | DelLocalDs
  | CalcPerSegmentStatsRIOS pyvalue pyvalue string pyvalue concurrencyStyle
  | ImportModule string
  | CalcPerSegmentSpatialStatsRIOS pyvalue pyvalue string pyvalue pyattr pyvalue concurrencyStyle
  | S3UploadFile string string string
  | Rmtree string

text \<open>
  The exceptions: the two \<open>ValueError\<close>s that \<open>main\<close> raises itself, the ones Python
  raises for it (unpacking, a method missing on a value, a local read before it is
  bound), and \<open>Raised e\<close> for an outside call \<open>e\<close> that raised.
\<close>

datatype error =
    ValueError string
  | AttributeError string
  | UnboundLocalError string
  | Raised event

text \<open>The unpickled preparation state, \<open>dataFromPickle\<close>.\<close>

record prep =
  colRowList :: "(int \<times> int) list"
  tileInfo :: pyvalue

text \<open>
  What the outside returns. \<open>None\<close> is a call that raises; \<open>call_ok\<close> says it for the
  calls whose result \<open>main\<close> does not use. The two request documents are taken in the
  shape the command-line help asks for (a list of 3-tuples, a list of 5-tuples).
\<close>

record env =
  pickle_at :: "string \<Rightarrow> string \<Rightarrow> prep option"
  stats_json_at :: "string \<Rightarrow> string \<Rightarrow> (pyvalue \<times> pyvalue \<times> pyvalue) list option"
  spatial_json_at ::
    "string \<Rightarrow> string \<Rightarrow> (pyvalue \<times> pyvalue \<times> pyvalue \<times> pyvalue \<times> pyvalue) list option"
  mkdtemp_result :: "string option"
  finalize_result :: "tile_dict \<Rightarrow> (int \<times> bool) option"
  histogram :: "pyvalue option"
  modules :: "string \<Rightarrow> (string \<Rightarrow> pyattr option) option"
  call_ok :: "event \<Rightarrow> bool"

subsection \<open>Runs: a trace and an outcome\<close>

type_synonym 'a run = "event list \<times> (error + 'a)"

definition ret :: "'a \<Rightarrow> 'a run" where
  "ret x = ([], Inr x)"

definition throw :: "error \<Rightarrow> 'a run" where
  "throw e = ([], Inl e)"

definition then_do :: "'a run \<Rightarrow> ('a \<Rightarrow> 'b run) \<Rightarrow> 'b run" where
  "then_do m f =
     (case snd m of
        Inl e \<Rightarrow> (fst m, Inl e)
      | Inr x \<Rightarrow> (fst m @ fst (f x), snd (f x)))"

definition emit :: "event \<Rightarrow> unit run" where
  "emit e = ([e], Inr ())"

definition call :: "env \<Rightarrow> event \<Rightarrow> unit run" where
  "call en e = ([e], if call_ok en e then Inr () else Inl (Raised e))"

definition call_ret :: "event \<Rightarrow> 'a option \<Rightarrow> 'a run" where
  "call_ret e r = ([e], case r of None \<Rightarrow> Inl (Raised e) | Some v \<Rightarrow> Inr v)"

subsection \<open>The stages of \<open>main\<close>\<close>

text \<open>
  Lines 108--117. The \<open>while len(objs) > 0\<close> loop deletes \<open>objs[0:1000]\<close> and drops
  them from the list; \<open>delete_batches\<close> is the list of the slices it passes.
\<close>

function delete_loop :: "env \<Rightarrow> string \<Rightarrow> string list \<Rightarrow> unit run" where
  "delete_loop en bkt objs =
     (if length objs > 0 then
        (if call_ok en (S3DeleteObjects bkt (take 1000 objs)) then
           (S3DeleteObjects bkt (take 1000 objs) # fst (delete_loop en bkt (drop 1000 objs)),
            snd (delete_loop en bkt (drop 1000 objs)))
         else ([S3DeleteObjects bkt (take 1000 objs)],
               Inl (Raised (S3DeleteObjects bkt (take 1000 objs)))))
      else ([], Inr ()))"
  by pat_completeness auto
termination
  by (relation "measure (\<lambda>(en, bkt, objs). length objs)") auto

definition tileCleanup :: "cmdargs \<Rightarrow> env \<Rightarrow> tile_dict \<Rightarrow> unit run" where
  "tileCleanup args en tileFilenames =
     (if \<not> noremove args
      then delete_loop en (bucket args) (tile_objs (tileprefix args) tileFilenames)
      else ret ())"

text \<open>Lines 119--129.\<close>

definition defaultStats :: "cmdargs \<Rightarrow> env \<Rightarrow> int \<Rightarrow> unit run" where
  "defaultStats args en maxSegId =
     (if \<not> nogdalstats args then
        then_do (call en (GetRasterBand 1)) (\<lambda>band.
        then_do (call en GetDefaultRAT) (\<lambda>rat.
        then_do (call en GetColOfUsage_PixelCount) (\<lambda>histIdx.
        then_do (call_ret RatReadAsArray (histogram en)) (\<lambda>hist.
        then_do (call en (EstimateStatsFromHisto hist)) (\<lambda>_.
        then_do (call en (WriteRandomColourTable (maxSegId + 1))) (\<lambda>_.
        call en AddOverviews))))))
      else ret ())"

text \<open>Lines 134--143.\<close>

definition make_concurrencyStyle :: "cmdargs \<Rightarrow> concurrencyStyle" where
  "make_concurrencyStyle args =
     (case readworkerstimeouts args of
        Some t \<Rightarrow>
          \<lparr> numReadWorkers = statsreadworkers args,
            readBufferPopTimeout = Some t,
            readBufferInsertTimeout = Some t,
            computeBufferInsertTimeout = Some t,
            computeBufferPopTimeout = Some t \<rparr>
      | None \<Rightarrow>
          \<lparr> numReadWorkers = statsreadworkers args,
            readBufferPopTimeout = None,
            readBufferInsertTimeout = None,
            computeBufferInsertTimeout = None,
            computeBufferPopTimeout = None \<rparr>)"

text \<open>
  \<open>bucket, statsKey = locator.split(':')\<close>: the assignment to two names raises
  \<open>ValueError\<close> unless the list has exactly two items.
\<close>

definition unpack2 :: "string list \<Rightarrow> error + (string \<times> string)" where
  "unpack2 ws =
     (case ws of
        [b, k] \<Rightarrow> Inr (b, k)
      | [] \<Rightarrow> Inl (ValueError ''not enough values to unpack (expected 2, got 0)'')
      | [b] \<Rightarrow> Inl (ValueError ''not enough values to unpack (expected 2, got 1)'')
      | _ \<Rightarrow> Inl (ValueError ''too many values to unpack (expected 2)''))"

definition parse_locator :: "string \<Rightarrow> (string \<times> string) run" where
  "parse_locator s = ([], unpack2 (split_on CHR '':'' s))"

text \<open>Lines 146--157.\<close>

fun stats_loop ::
  "env \<Rightarrow> string \<Rightarrow> concurrencyStyle \<Rightarrow> (pyvalue \<times> pyvalue \<times> pyvalue) list \<Rightarrow> unit run" where
  "stats_loop en localOutfile cs [] = ret ()"
| "stats_loop en localOutfile cs ((img, bandnum, selection) # rest) =
     then_do (call en (CalcPerSegmentStatsRIOS img bandnum localOutfile selection cs))
       (\<lambda>_. stats_loop en localOutfile cs rest)"

definition perSegmentStats ::
  "cmdargs \<Rightarrow> env \<Rightarrow> string \<Rightarrow> concurrencyStyle \<Rightarrow> string option run" where
  "perSegmentStats args en localOutfile cs =
     (case stats args of
        None \<Rightarrow> ret None
      | Some locator \<Rightarrow>
          then_do (parse_locator locator) (\<lambda>(bkt, statsKey).
          then_do (call_ret (S3DownloadFileobj bkt statsKey) (stats_json_at en bkt statsKey))
            (\<lambda>dataForStats.
          then_do (stats_loop en localOutfile cs dataForStats) (\<lambda>_.
          ret (Some statsKey)))))"

text \<open>
  Lines 168--181: the user function from its dotted name. \<open>userFuncArr[:-1]\<close> is
  \<open>butlast\<close>, \<open>userFuncArr[-1]\<close> is \<open>last\<close> (the list has two items or more there).
\<close>

definition fq_message :: string where
  "fq_message = CHR 0x27 # ''userFunc'' @ CHR 0x27 # '' must be a fully qualified function '' @
     ''name. ie. modulename.function_name. '' @
     ''eg. pyshepseg.tilingstats.userFuncVariogram''"

definition notfound_message :: "string \<Rightarrow> string \<Rightarrow> string" where
  "notfound_message funcName moduleName =
     ''Cannot find function '' @ funcName @ '' in module '' @ moduleName"

definition resolve_userFunc :: "env \<Rightarrow> string \<Rightarrow> pyattr run" where
  "resolve_userFunc en userFuncName =
     (let userFuncArr = split_on CHR ''.'' userFuncName in
      if length userFuncArr < 2 then throw (ValueError fq_message)
      else
        let moduleName = join ''.'' (butlast userFuncArr);
            funcName = last userFuncArr in
        then_do (call_ret (ImportModule moduleName) (modules en moduleName)) (\<lambda>modl.
        (case modl funcName of
           None \<Rightarrow> throw (ValueError (notfound_message funcName moduleName))
         | Some userFunc \<Rightarrow> ret userFunc)))"

text \<open>Lines 159--184. A name that is not a \<open>str\<close> has no \<open>split\<close>.\<close>

fun spatial_loop ::
  "env \<Rightarrow> string \<Rightarrow> concurrencyStyle \<Rightarrow>
   (pyvalue \<times> pyvalue \<times> pyvalue \<times> pyvalue \<times> pyvalue) list \<Rightarrow> unit run" where
  "spatial_loop en localOutfile cs [] = ret ()"
| "spatial_loop en localOutfile cs ((img, bandnum, colInfo, userFuncName, param) # rest) =
     then_do
       (case userFuncName of
          PyStr name \<Rightarrow> resolve_userFunc en name
        | _ \<Rightarrow> throw (AttributeError ''split''))
       (\<lambda>userFunc.
     then_do
       (call en (CalcPerSegmentSpatialStatsRIOS img bandnum localOutfile colInfo userFunc
          param cs))
       (\<lambda>_. spatial_loop en localOutfile cs rest))"

definition perSegmentSpatialStats ::
  "cmdargs \<Rightarrow> env \<Rightarrow> string \<Rightarrow> concurrencyStyle \<Rightarrow> string option run" where
  "perSegmentSpatialStats args en localOutfile cs =
     (case spatialstats args of
        None \<Rightarrow> ret None
      | Some locator \<Rightarrow>
          then_do (parse_locator locator) (\<lambda>(bkt, spatialstatsKey).
          then_do
            (call_ret (S3DownloadFileobj bkt spatialstatsKey)
               (spatial_json_at en bkt spatialstatsKey))
            (\<lambda>dataForStats.
          then_do (spatial_loop en localOutfile cs dataForStats) (\<lambda>_.
          ret (Some spatialstatsKey)))))"

text \<open>
  Lines 190--197. \<open>statsKey\<close> and \<open>spatialstatsKey\<close> are locals bound only inside the
  two statistics blocks; reading one that was never bound raises.
\<close>

definition append_key :: "bool \<Rightarrow> string \<Rightarrow> string option \<Rightarrow> string list \<Rightarrow> string list run" where
  "append_key wanted name var objs =
     (if wanted then
        (case var of
           None \<Rightarrow> throw (UnboundLocalError name)
         | Some k \<Rightarrow> ret (objs @ [k]))
      else ret objs)"

definition finalCleanup ::
  "cmdargs \<Rightarrow> env \<Rightarrow> string option \<Rightarrow> string option \<Rightarrow> unit run" where
  "finalCleanup args en statsKey spatialstatsKey =
     (if \<not> noremove args then
        then_do (append_key (stats args \<noteq> None) ''statsKey'' statsKey [pickle args])
          (\<lambda>objs.
        then_do
          (append_key (spatialstats args \<noteq> None) ''spatialstatsKey'' spatialstatsKey objs)
          (\<lambda>objs.
        call en (S3DeleteObjects (bucket args) objs)))
      else ret ())"

subsection \<open>\<open>main\<close>\<close>

text \<open>
  The whole routine, lines 69--202, stage after stage. What it prints (the tuples of the
  request documents, the peak memory) is left out of the trace.
\<close>

definition main :: "cmdargs \<Rightarrow> env \<Rightarrow> unit run" where
  "main args en =
     then_do
       (call_ret (S3DownloadFileobj (bucket args) (pickle args))
          (pickle_at en (bucket args) (pickle args)))
       (\<lambda>dataFromPickle.
     let inPath = ''/vsis3/'' @ bucket args @ ''/'' @ infile args in
     then_do (call en (GdalOpen inPath)) (\<lambda>inDs.
     then_do (call_ret Mkdtemp (mkdtemp_result en)) (\<lambda>tempDir.
     let tileFilenames =
           build_tileFilenames (bucket args) (tileprefix args) (colRowList dataFromPickle);
         localOutfile = path_join tempDir (basename (outfile args)) in
     then_do
       (call_ret
          (Finalize inPath localOutfile tileFilenames (tileInfo dataFromPickle)
             (overlapsize args) tempDir True)
          (finalize_result en tileFilenames))
       (\<lambda>(maxSegId, hasEmptySegments).
     then_do (tileCleanup args en tileFilenames) (\<lambda>_.
     then_do (defaultStats args en maxSegId) (\<lambda>_.
     then_do (emit DelLocalDs) (\<lambda>_.
     let cs = make_concurrencyStyle args in
     then_do (perSegmentStats args en localOutfile cs) (\<lambda>statsKey.
     then_do (perSegmentSpatialStats args en localOutfile cs) (\<lambda>spatialstatsKey.
     then_do (call en (S3UploadFile localOutfile (bucket args) (outfile args))) (\<lambda>_.
     then_do (finalCleanup args en statsKey spatialstatsKey) (\<lambda>_.
     call en (Rmtree tempDir))))))))))))"

section \<open>Reading decimal numbers back\<close>

text \<open>The value of a digit string, used to show that \<open>str_int\<close> loses nothing.\<close>

definition digit_val :: "char \<Rightarrow> nat" where
  "digit_val c = of_char c - 48"

definition number_of :: "string \<Rightarrow> nat" where
  "number_of s = foldl (\<lambda>a c. 10 * a + digit_val c) 0 s"

section \<open>Observing traces; example inputs\<close>

text \<open>The keys a delete call passes.\<close>

definition deleted_keys :: "event \<Rightarrow> string list" where
  "deleted_keys e = (case e of S3DeleteObjects bkt ks \<Rightarrow> ks | _ \<Rightarrow> [])"

text \<open>A command line and an outside world in which every call returns.\<close>

definition example_args :: cmdargs where
  "example_args =
     \<lparr> bucket = ''b'', infile = ''in.tif'', outfile = ''out/seg.kea'', tileprefix = ''run1'',
       pickle = ''prep.pkl'', overlapsize = 5, stats = Some ''sb:s.json'',
       spatialstats = Some ''b:sp.json'', nogdalstats = False, noremove = False,
       statsreadworkers = 2, readworkerstimeouts = Some 30 \<rparr>"

definition example_env :: env where
  "example_env =
     \<lparr> pickle_at = (\<lambda>b k. Some \<lparr> colRowList = [(0, 0), (0, 1), (1, 0), (1, 1)],
                                   tileInfo = PyNone \<rparr>),
       stats_json_at = (\<lambda>b k. Some [(PyStr ''img.tif'', PyInt 1, PyList [PyStr ''mean''])]),
       spatial_json_at = (\<lambda>b k. Some [(PyStr ''img.tif'', PyInt 1, PyList [],
                                        PyStr ''mypkg.myfunc'', PyInt 7)]),
       mkdtemp_result = Some ''/tmp/x'',
       finalize_result = (\<lambda>d. Some (41, False)),
       histogram = Some (PyList [PyInt 3]),
       modules = (\<lambda>m. if m = ''mypkg''
                       then Some (\<lambda>f. if f = ''myfunc'' then Some (PyFunction ''myfunc'') else None)
                       else None),
       call_ok = (\<lambda>e. True) \<rparr>"

text \<open>Classes of events.\<close>

definition is_delete :: "event \<Rightarrow> bool" where
  "is_delete e = (case e of S3DeleteObjects bkt ks \<Rightarrow> True | _ \<Rightarrow> False)"

text \<open>The concurrency style a statistics call is given.\<close>

definition call_concurrency :: "event \<Rightarrow> concurrencyStyle option" where
  "call_concurrency e =
     (case e of
        CalcPerSegmentStatsRIOS img bandnum lo selection cs \<Rightarrow> Some cs
      | CalcPerSegmentSpatialStatsRIOS img bandnum lo colInfo userFunc param cs \<Rightarrow> Some cs
      | _ \<Rightarrow> None)"

definition is_default_stats :: "event \<Rightarrow> bool" where
  "is_default_stats e =
     (case e of
        GetRasterBand n \<Rightarrow> True
      | GetDefaultRAT \<Rightarrow> True
      | GetColOfUsage_PixelCount \<Rightarrow> True
      | RatReadAsArray \<Rightarrow> True
      | EstimateStatsFromHisto hist \<Rightarrow> True
      | WriteRandomColourTable n \<Rightarrow> True
      | AddOverviews \<Rightarrow> True
      | _ \<Rightarrow> False)"

definition is_upload :: "event \<Rightarrow> bool" where
  "is_upload e = (case e of S3UploadFile localPath bkt k \<Rightarrow> True | _ \<Rightarrow> False)"

definition is_aggregate_call :: "event \<Rightarrow> bool" where
  "is_aggregate_call e =
     (case e of CalcPerSegmentStatsRIOS img bandnum lo selection cs \<Rightarrow> True | _ \<Rightarrow> False)"

definition is_spatial_call :: "event \<Rightarrow> bool" where
  "is_spatial_call e =
     (case e of
        CalcPerSegmentSpatialStatsRIOS img bandnum lo colInfo userFunc param cs \<Rightarrow> True
      | _ \<Rightarrow> False)"

text \<open>The finalisation call and the statistics calls.\<close>

definition is_finalize :: "event \<Rightarrow> bool" where
  "is_finalize e =
     (case e of Finalize inPath lo tf ti ov dir wh \<Rightarrow> True | _ \<Rightarrow> False)"

definition is_stats_call :: "event \<Rightarrow> bool" where
  "is_stats_call e \<longleftrightarrow> is_aggregate_call e \<or> is_spatial_call e"

text \<open>
  The handle on the output raster that \<open>main\<close> holds in \<open>localDs\<close>: none before
  the finalisation has returned it, open from then on, closed by \<open>del localDs\<close> (the
  source: "ensure dataset is closed so we can open it again in RIOS").
\<close>

datatype handle_state = NoHandle | HandleOpen | HandleClosed

definition handle_after :: "handle_state \<Rightarrow> event \<Rightarrow> handle_state" where
  "handle_after s e =
     (if is_finalize e then HandleOpen
      else if e = DelLocalDs then (case s of HandleOpen \<Rightarrow> HandleClosed | _ \<Rightarrow> s)
      else s)"

definition handle_of :: "event list \<Rightarrow> handle_state" where
  "handle_of pre = foldl handle_after NoHandle pre"

text \<open>
  Modelled from the spec: the handles of the finalisation and statistics engines, whose
  code is not part of the script. The specification says that the finalisation engine
  opens the output raster and returns that handle, and that the statistics engine reopens
  the file itself for the time of a call. \<open>open_handles s e\<close> counts the handles
  on the output path while the call \<open>e\<close> runs: the one \<open>main\<close> holds in state
  \<open>s\<close>, and the one an engine call has open.
\<close>

definition open_handles :: "handle_state \<Rightarrow> event \<Rightarrow> nat" where
  "open_handles s e =
     (if s = HandleOpen then 1 else 0) + (if is_finalize e \<or> is_stats_call e then 1 else 0)"

text \<open>
  A trace keeps the discipline from state \<open>s\<close> when every statistics call finds the
  handle closed and no call runs with more than one handle open.
\<close>

fun safe_from :: "handle_state \<Rightarrow> event list \<Rightarrow> bool" where
  "safe_from s [] = True"
| "safe_from s (e # es) =
     ((is_stats_call e \<longrightarrow> s = HandleClosed) \<and> open_handles s e \<le> 1 \<and>
      safe_from (handle_after s e) es)"

definition stage_ok :: "handle_state \<Rightarrow> 'a run \<Rightarrow> handle_state \<Rightarrow> bool" where
  "stage_ok s m s' \<longleftrightarrow>
     safe_from s (fst m) \<and> (\<forall>x. snd m = Inr x \<longrightarrow> foldl handle_after s (fst m) = s')"

section \<open>Properties\<close>

subsection \<open>Decimal formatting is injective\<close>

declare digits.simps [simp del]

lemma digit_val_digit_char: "d < 10 \<Longrightarrow> digit_val (digit_char d) = d"
  by (simp add: digit_val_def digit_char_def)

lemma number_of_snoc: "number_of (s @ [c]) = 10 * number_of s + digit_val c"
  by (simp add: number_of_def)

lemma number_of_digits: "number_of (digits n) = n"
proof (induction n rule: digits.induct)
  case (1 n)
  show ?case
  proof (cases "n < 10")
    case True
    then show ?thesis
      by (subst digits.simps) (simp add: number_of_def digit_val_digit_char)
  next
    case False
    with 1 have "number_of (digits (n div 10)) = n div 10" by simp
    with False show ?thesis
      by (subst digits.simps) (simp add: number_of_snoc digit_val_digit_char)
  qed
qed

lemma digits_inj: "digits m = digits n \<Longrightarrow> m = n"
  by (metis number_of_digits)

lemma digit_char_range: "d < 10 \<Longrightarrow> of_char (digit_char d) = (48 + d :: nat)"
  by (simp add: digit_char_def)

lemma digits_chars: "c \<in> set (digits n) \<Longrightarrow> 48 \<le> (of_char c :: nat) \<and> (of_char c :: nat) < 58"
proof (induction n rule: digits.induct)
  case (1 n)
  show ?case
  proof (cases "n < 10")
    case True
    with 1(2) show ?thesis
      by (subst (asm) digits.simps) (simp add: digit_char_range)
  next
    case False
    with 1 show ?thesis
      by (subst (asm) digits.simps) (auto simp: digit_char_range)
  qed
qed

lemma digits_nonempty: "digits n \<noteq> []"
  by (subst digits.simps) simp

lemma str_int_chars:
  "c \<in> set (str_int i) \<Longrightarrow> c = CHR ''-'' \<or> (48 \<le> (of_char c :: nat) \<and> (of_char c :: nat) < 58)"
  by (auto simp: str_int_def dest: digits_chars split: if_splits)

lemma minus_notin_digits: "CHR ''-'' \<notin> set (digits n)"
  using digits_chars [of "CHR ''-''" n] by auto

lemma underscore_notin_str_int: "CHR ''_'' \<notin> set (str_int i)"
  using str_int_chars [of "CHR ''_''" i] by auto

lemma str_int_inj: "str_int i = str_int j \<Longrightarrow> i = j"
proof -
  assume eq: "str_int i = str_int j"
  have hd_digits: "\<And>n. hd (digits n) \<noteq> CHR ''-''"
    using minus_notin_digits digits_nonempty by (metis hd_in_set)
  show "i = j"
  proof (cases "i < 0")
    case True
    show ?thesis
    proof (cases "j < 0")
      case True
      with \<open>i < 0\<close> eq have "digits (nat (- i)) = digits (nat (- j))"
        by (simp add: str_int_def)
      then have "nat (- i) = nat (- j)" by (rule digits_inj)
      with True \<open>i < 0\<close> show ?thesis by simp
    next
      case False
      with True eq have "CHR ''-'' # digits (nat (- i)) = digits (nat j)"
        by (simp add: str_int_def)
      then have "hd (digits (nat j)) = CHR ''-''" by (metis list.sel(1))
      with hd_digits show ?thesis by blast
    qed
  next
    case False
    show ?thesis
    proof (cases "j < 0")
      case True
      with False eq have "digits (nat i) = CHR ''-'' # digits (nat (- j))"
        by (simp add: str_int_def)
      then have "hd (digits (nat i)) = CHR ''-''" by simp
      with hd_digits show ?thesis by blast
    next
      case jpos: False
      with False eq have "digits (nat i) = digits (nat j)"
        by (simp add: str_int_def)
      then have "nat i = nat j" by (rule digits_inj)
      with False jpos show ?thesis by simp
    qed
  qed
qed

lemma sep_unique:
  assumes "c \<notin> set xs" "c \<notin> set xs'" "xs @ c # ys = xs' @ c # ys'"
  shows "xs = xs' \<and> ys = ys'"
proof -
  have tw: "c \<notin> set zs \<Longrightarrow> takeWhile (\<lambda>x. x \<noteq> c) (zs @ c # ws) = zs" for zs ws
    by (induction zs) auto
  have "takeWhile (\<lambda>x. x \<noteq> c) (xs @ c # ys) = xs"
    using assms(1) by (rule tw)
  moreover have "takeWhile (\<lambda>x. x \<noteq> c) (xs' @ c # ys') = xs'"
    using assms(2) by (rule tw)
  ultimately have "xs = xs'" using assms(3) by simp
  with assms(3) show ?thesis by simp
qed

lemma tile_key_inj: "tile_key pfx cr = tile_key pfx cr' \<Longrightarrow> cr = cr'"
proof -
  assume "tile_key pfx cr = tile_key pfx cr'"
  then have eq: "str_int (fst cr) @ CHR ''_'' # (str_int (snd cr) @ ''.tif'')
      = str_int (fst cr') @ CHR ''_'' # (str_int (snd cr') @ ''.tif'')"
    by (simp add: tile_key_def format_tile_def)
  from sep_unique [OF underscore_notin_str_int underscore_notin_str_int eq]
  have "str_int (fst cr) = str_int (fst cr')" and "str_int (snd cr) = str_int (snd cr')"
    by simp_all
  then show "cr = cr'"
    by (simp add: str_int_inj prod_eq_iff)
qed

lemma tile_filename_inj: "tile_filename bkt pfx cr = tile_filename bkt pfx cr' \<Longrightarrow> cr = cr'"
  by (simp add: tile_filename_def tile_key_inj)

subsection \<open>The tile dictionary\<close>

lemma update_fresh: "k \<notin> fst ` set d \<Longrightarrow> AList.update k v d = d @ [(k, v)]"
  by (induction d) auto

lemma fold_update_fresh:
  "distinct crs \<Longrightarrow> set crs \<inter> fst ` set d = {} \<Longrightarrow>
   foldl (\<lambda>d cr. AList.update cr (f cr) d) d crs = d @ map (\<lambda>cr. (cr, f cr)) crs"
proof (induction crs arbitrary: d)
  case Nil
  then show ?case by simp
next
  case (Cons cr crs)
  from Cons.prems have fresh: "cr \<notin> fst ` set d" by auto
  have "set crs \<inter> fst ` set (d @ [(cr, f cr)]) = {}"
    using Cons.prems by auto
  with Cons.IH [of "d @ [(cr, f cr)]"] Cons.prems(1) fresh show ?case
    by (simp add: update_fresh)
qed

lemma build_tileFilenames_distinct_input:
  "distinct crs \<Longrightarrow>
   build_tileFilenames bkt pfx crs = map (\<lambda>cr. (cr, tile_filename bkt pfx cr)) crs"
  using fold_update_fresh [of crs "[]" "tile_filename bkt pfx"]
  by (simp add: build_tileFilenames_def)

lemma fold_update_keys:
  "distinct (map fst d) \<Longrightarrow>
   distinct (map fst (foldl (\<lambda>d cr. AList.update cr (f cr) d) d crs))"
  by (induction crs arbitrary: d) (simp_all add: distinct_update)

lemma build_tileFilenames_keys: "distinct (map fst (build_tileFilenames bkt pfx crs))"
  by (simp add: build_tileFilenames_def fold_update_keys)

lemma tile_objs_distinct:
  assumes "distinct (map fst d)"
  shows "distinct (tile_objs pfx d)"
proof -
  have inj: "inj_on (tile_key pfx) (set (map fst d))"
    by (rule inj_onI) (rule tile_key_inj)
  from assms inj have "distinct (map (tile_key pfx) (map fst d))"
    using distinct_map [of "tile_key pfx" "map fst d"] by blast
  moreover have "tile_objs pfx d = map (tile_key pfx) (map fst d)"
    by (simp add: tile_objs_def case_prod_unfold)
  ultimately show ?thesis by simp
qed

subsection \<open>C8: distinct coordinates give distinct tile names\<close>

text \<open>
  Claim C8. For a list of pairwise distinct integer (column, row) coordinates and a fixed
  prefix, the formatted tile keys are as many as the coordinates and pairwise distinct;
  the dictionary \<open>tileFilenames\<close> that \<open>main\<close> builds has one entry per
  coordinate, in list order, with pairwise distinct file names, and the keys the tile
  cleanup derives from it are the same keys. The name is a function of prefix, column and
  row alone: equal inputs give equal names.
\<close>
theorem tile_names_distinct:
  "distinct crs \<Longrightarrow>
     length (map (tile_key pfx) crs) = length crs \<and>
     distinct (map (tile_key pfx) crs) \<and>
     build_tileFilenames bkt pfx crs = map (\<lambda>cr. (cr, tile_filename bkt pfx cr)) crs \<and>
     distinct (map snd (build_tileFilenames bkt pfx crs)) \<and>
     tile_objs pfx (build_tileFilenames bkt pfx crs) = map (tile_key pfx) crs \<and>
     (\<forall>pfx' col row col' row'. pfx' = pfx \<and> col' = col \<and> row' = row \<longrightarrow>
        format_tile pfx' col' row' ''tif'' = format_tile pfx col row ''tif'')"
proof -
  assume d: "distinct crs"
  have "inj_on (tile_key pfx) (set crs)"
    by (rule inj_onI) (rule tile_key_inj)
  with d have 1: "distinct (map (tile_key pfx) crs)"
    by (simp add: distinct_map)
  have "inj_on (tile_filename bkt pfx) (set crs)"
    by (rule inj_onI) (rule tile_filename_inj)
  with d have 2: "distinct (map (tile_filename bkt pfx) crs)"
    by (simp add: distinct_map)
  from d have 3: "build_tileFilenames bkt pfx crs = map (\<lambda>cr. (cr, tile_filename bkt pfx cr)) crs"
    by (rule build_tileFilenames_distinct_input)
  from 2 3 have 4: "distinct (map snd (build_tileFilenames bkt pfx crs))"
    by (simp add: comp_def)
  from 3 have 5: "tile_objs pfx (build_tileFilenames bkt pfx crs) = map (tile_key pfx) crs"
    by (simp add: tile_objs_def comp_def)
  from 1 3 4 5 show ?thesis by simp
qed

theorem tile_names_distinct_witness:
  "distinct ([(0, 0), (0, 1), (1, 0), (-1, 12)] :: (int \<times> int) list) \<and>
   distinct (map (tile_key ''run1'') [(0, 0), (0, 1), (1, 0), (-1, 12)]) \<and>
   distinct (map snd (build_tileFilenames ''b'' ''run1'' [(0, 0), (0, 1), (1, 0), (-1, 12)]))"
proof -
  have d: "distinct ([(0, 0), (0, 1), (1, 0), (-1, 12)] :: (int \<times> int) list)" by simp
  from tile_names_distinct [OF d, of "''run1''" "''b''"] d show ?thesis by blast
qed

subsection \<open>The delete loop\<close>

declare delete_loop.simps [simp del]

lemma delete_loop_Nil [simp]: "delete_loop en bkt [] = ([], Inr ())"
  by (subst delete_loop.simps) simp

lemma delete_loop_events:
  "e \<in> set (fst (delete_loop en bkt objs)) \<Longrightarrow>
   \<exists>ks. e = S3DeleteObjects bkt ks \<and> 0 < length ks \<and> length ks \<le> 1000"
proof (induction en bkt objs rule: delete_loop.induct)
  case (1 en bkt objs)
  show ?case
  proof (cases "objs = []")
    case True
    with "1.prems" show ?thesis by simp
  next
    case False
    show ?thesis
    proof (cases "call_ok en (S3DeleteObjects bkt (take 1000 objs))")
      case True
      from "1.prems" False True
      have "e = S3DeleteObjects bkt (take 1000 objs) \<or>
            e \<in> set (fst (delete_loop en bkt (drop 1000 objs)))"
        by (subst (asm) delete_loop.simps) simp
      with "1.IH" False True show ?thesis by auto
    next
      case nok: False
      from "1.prems" False nok have "e = S3DeleteObjects bkt (take 1000 objs)"
        by (subst (asm) delete_loop.simps) simp
      with False show ?thesis by auto
    qed
  qed
qed

lemma delete_loop_step:
  "objs \<noteq> [] \<Longrightarrow> snd (delete_loop en bkt objs) = Inr () \<Longrightarrow>
   call_ok en (S3DeleteObjects bkt (take 1000 objs)) \<and>
   snd (delete_loop en bkt (drop 1000 objs)) = Inr () \<and>
   fst (delete_loop en bkt objs) =
     S3DeleteObjects bkt (take 1000 objs) # fst (delete_loop en bkt (drop 1000 objs))"
  by (subst (asm) delete_loop.simps, subst delete_loop.simps) (simp split: if_splits)

lemma delete_loop_concat:
  "snd (delete_loop en bkt objs) = Inr () \<Longrightarrow>
   concat (map deleted_keys (fst (delete_loop en bkt objs))) = objs"
proof (induction "length objs" arbitrary: objs rule: less_induct)
  case less
  show ?case
  proof (cases "objs = []")
    case True
    then show ?thesis by simp
  next
    case False
    from delete_loop_step [OF False less.prems]
    have ok: "snd (delete_loop en bkt (drop 1000 objs)) = Inr ()"
      and tr: "fst (delete_loop en bkt objs) =
        S3DeleteObjects bkt (take 1000 objs) # fst (delete_loop en bkt (drop 1000 objs))"
      by simp_all
    from False have "length (drop 1000 objs) < length objs" by simp
    from less.hyps [OF this ok] tr show ?thesis
      by (simp add: deleted_keys_def)
  qed
qed

lemma delete_loop_count:
  "snd (delete_loop en bkt objs) = Inr () \<Longrightarrow>
   length (fst (delete_loop en bkt objs)) = (length objs + 999) div 1000"
proof (induction "length objs" arbitrary: objs rule: less_induct)
  case less
  show ?case
  proof (cases "objs = []")
    case True
    then show ?thesis by simp
  next
    case False
    from delete_loop_step [OF False less.prems]
    have ok: "snd (delete_loop en bkt (drop 1000 objs)) = Inr ()"
      and tr: "fst (delete_loop en bkt objs) =
        S3DeleteObjects bkt (take 1000 objs) # fst (delete_loop en bkt (drop 1000 objs))"
      by simp_all
    from False have lt: "length (drop 1000 objs) < length objs" by simp
    have "Suc ((length (drop 1000 objs) + 999) div 1000) = (length objs + 999) div 1000"
    proof (cases "length objs < 1000")
      case True
      from False have "Suc 0 \<le> length objs" by (cases objs) simp_all
      with True have "(length objs + 999) div 1000 = 1"
        by (intro div_nat_eqI) simp_all
      with True show ?thesis by simp
    next
      case ge: False
      then have "length objs + 999 = (length objs - 1000 + 999) + 1000" by simp
      then have "(length objs + 999) div 1000 = Suc ((length objs - 1000 + 999) div 1000)"
        by (simp only: div_add_self2)
      then show ?thesis by simp
    qed
    with less.hyps [OF lt ok] tr show ?thesis by simp
  qed
qed

lemma delete_loop_sizes:
  "snd (delete_loop en bkt objs) = Inr () \<Longrightarrow>
   map (\<lambda>e. length (deleted_keys e)) (fst (delete_loop en bkt objs)) =
     replicate (length objs div 1000) 1000 @
     (if length objs mod 1000 = 0 then [] else [length objs mod 1000])"
proof (induction "length objs" arbitrary: objs rule: less_induct)
  case less
  show ?case
  proof (cases "objs = []")
    case True
    then show ?thesis by simp
  next
    case False
    from delete_loop_step [OF False less.prems]
    have ok: "snd (delete_loop en bkt (drop 1000 objs)) = Inr ()"
      and tr: "fst (delete_loop en bkt objs) =
        S3DeleteObjects bkt (take 1000 objs) # fst (delete_loop en bkt (drop 1000 objs))"
      by simp_all
    from False have lt: "length (drop 1000 objs) < length objs" by simp
    note ih = less.hyps [OF lt ok]
    show ?thesis
    proof (cases "length objs < 1000")
      case True
      with False ih tr show ?thesis
        by (simp add: deleted_keys_def)
    next
      case ge: False
      then have d: "length objs div 1000 = Suc ((length objs - 1000) div 1000)"
        and m: "(length objs - 1000) mod 1000 = length objs mod 1000"
        by (simp_all add: le_div_geq le_mod_geq)
      from ge ih tr d m show ?thesis
        by (simp add: deleted_keys_def min_def)
    qed
  qed
qed

lemma delete_loop_all_ok:
  "(\<And>e. call_ok en e) \<Longrightarrow> snd (delete_loop en bkt objs) = Inr ()"
proof (induction "length objs" arbitrary: objs rule: less_induct)
  case less
  show ?case
  proof (cases "objs = []")
    case True
    then show ?thesis by simp
  next
    case False
    then have "length (drop 1000 objs) < length objs" by simp
    from less.hyps [OF this less.prems] False less.prems show ?thesis
      by (subst delete_loop.simps) simp
  qed
qed

subsection \<open>C2: the tile cleanup deletes in batches of at most 1000\<close>

text \<open>
  Claim C2. When tiles are to be removed and no delete call raises, the tile cleanup of a
  dictionary with K keys issues ceil(K/1000) delete calls, written (K + 999) div 1000, all
  on the bucket of the command line, each with between 1 and 1000 keys; the batches
  concatenated in call order are the list of tile keys, so with distinct dictionary keys
  every tile key is deleted exactly once, which is the case for every dictionary that
  \<open>main\<close> builds; no call is made for K = 0, and for K = 2500 the batch sizes are
  1000, 1000, 500 in that order.
\<close>

theorem tile_cleanup_batches:
  assumes "\<not> noremove args" and "snd (tileCleanup args en d) = Inr ()"
  shows
    "length (fst (tileCleanup args en d)) = (length d + 999) div 1000 \<and>
     (\<forall>e \<in> set (fst (tileCleanup args en d)).
        \<exists>ks. e = S3DeleteObjects (bucket args) ks \<and> 0 < length ks \<and> length ks \<le> 1000) \<and>
     concat (map deleted_keys (fst (tileCleanup args en d))) = tile_objs (tileprefix args) d \<and>
     (distinct (map fst d) \<longrightarrow>
        distinct (concat (map deleted_keys (fst (tileCleanup args en d))))) \<and>
     (\<forall>bkt pfx crs. d = build_tileFilenames bkt pfx crs \<longrightarrow>
        distinct (concat (map deleted_keys (fst (tileCleanup args en d))))) \<and>
     (length d = 0 \<longrightarrow> fst (tileCleanup args en d) = []) \<and>
     (length d = 2500 \<longrightarrow>
        map (\<lambda>e. length (deleted_keys e)) (fst (tileCleanup args en d)) = [1000, 1000, 500])"
proof -
  let ?objs = "tile_objs (tileprefix args) d"
  from assms have eq: "tileCleanup args en d = delete_loop en (bucket args) ?objs"
    by (simp add: tileCleanup_def)
  with assms(2) have ok: "snd (delete_loop en (bucket args) ?objs) = Inr ()" by simp
  have len: "length ?objs = length d" by (simp add: tile_objs_def)
  have 1: "length (fst (tileCleanup args en d)) = (length d + 999) div 1000"
    using delete_loop_count [OF ok] by (simp add: eq len)
  have 2: "\<forall>e \<in> set (fst (tileCleanup args en d)).
        \<exists>ks. e = S3DeleteObjects (bucket args) ks \<and> 0 < length ks \<and> length ks \<le> 1000"
    unfolding eq using delete_loop_events by blast
  have 3: "concat (map deleted_keys (fst (tileCleanup args en d))) = ?objs"
    using delete_loop_concat [OF ok] by (simp add: eq)
  have 4: "distinct (map fst d) \<longrightarrow>
        distinct (concat (map deleted_keys (fst (tileCleanup args en d))))"
    using 3 by (simp add: tile_objs_distinct)
  have 7: "\<forall>bkt pfx crs. d = build_tileFilenames bkt pfx crs \<longrightarrow>
        distinct (concat (map deleted_keys (fst (tileCleanup args en d))))"
    using 4 build_tileFilenames_keys by blast
  have 5: "length d = 0 \<longrightarrow> fst (tileCleanup args en d) = []"
    using eq by (auto simp: tile_objs_def)
  have 6: "length d = 2500 \<longrightarrow>
        map (\<lambda>e. length (deleted_keys e)) (fst (tileCleanup args en d)) = [1000, 1000, 500]"
  proof
    assume k: "length d = 2500"
    have r: "replicate ((2500::nat) div 1000) (1000::nat) = [1000, 1000]"
      by (simp add: numeral_2_eq_2)
    have "map (\<lambda>e. length (deleted_keys e)) (fst (delete_loop en (bucket args) ?objs)) =
        replicate ((2500::nat) div 1000) 1000 @ [500]"
      using delete_loop_sizes [OF ok] by (simp add: len k)
    with r show "map (\<lambda>e. length (deleted_keys e)) (fst (tileCleanup args en d)) =
        [1000, 1000, 500]"
      by (simp only: eq append.simps)
  qed
  from 1 2 3 4 5 6 7 show ?thesis by blast
qed


lemma str_int_small: "str_int 0 = ''0''" "str_int 1 = ''1''"
  by (simp_all add: str_int_def digits.simps digit_char_def char_of_def bit_Suc_0_iff)

theorem tile_cleanup_batches_witness:
  "\<not> noremove example_args \<and>
   snd (tileCleanup example_args example_env (map (\<lambda>i. ((int i, 0), [])) [0..<2500])) = Inr () \<and>
   length (fst (tileCleanup example_args example_env (map (\<lambda>i. ((int i, 0), [])) [0..<2500]))) = 3 \<and>
   map (\<lambda>e. length (deleted_keys e))
     (fst (tileCleanup example_args example_env (map (\<lambda>i. ((int i, 0), [])) [0..<2500])))
     = [1000, 1000, 500]"
proof -
  let ?d = "map (\<lambda>i. ((int i, 0 :: int), [] :: string)) [0..<2500]"
  have h1: "\<not> noremove example_args"
    by (simp add: example_args_def)
  have h2: "snd (tileCleanup example_args example_env ?d) = Inr ()"
    by (simp add: tileCleanup_def h1 delete_loop_all_ok example_env_def)
  have len: "length ?d = 2500" by simp
  from tile_cleanup_batches [OF h1 h2] len h1 h2 show ?thesis
    by simp
qed

subsection \<open>Runs\<close>

lemma fst_then_do:
  "fst (then_do m f) = fst m @ (case snd m of Inl e \<Rightarrow> [] | Inr x \<Rightarrow> fst (f x))"
  by (simp add: then_do_def split: sum.splits)

lemma snd_then_do:
  "snd (then_do m f) = (case snd m of Inl e \<Rightarrow> Inl e | Inr x \<Rightarrow> snd (f x))"
  by (simp add: then_do_def split: sum.splits)

lemma then_do_Inr_iff:
  "snd (then_do m f) = Inr y \<longleftrightarrow> (\<exists>x. snd m = Inr x \<and> snd (f x) = Inr y)"
  by (simp add: then_do_def split: sum.splits)

lemma then_do_Inr [simp]: "snd m = Inr x \<Longrightarrow> then_do m f = (fst m @ fst (f x), snd (f x))"
  by (simp add: then_do_def)

lemma then_do_Inl [simp]: "snd m = Inl e \<Longrightarrow> then_do m f = (fst m, Inl e)"
  by (simp add: then_do_def)

lemma ret_simps [simp]: "fst (ret x) = []" "snd (ret x) = Inr x"
  by (simp_all add: ret_def)

lemma throw_simps [simp]: "fst (throw e) = []" "snd (throw e) = Inl e"
  by (simp_all add: throw_def)

lemma emit_simps [simp]: "fst (emit e) = [e]" "snd (emit e) = Inr ()"
  by (simp_all add: emit_def)

lemma call_simps [simp]:
  "fst (call en e) = [e]"
  "snd (call en e) = (if call_ok en e then Inr () else Inl (Raised e))"
  by (simp_all add: call_def)

lemma call_ret_simps [simp]:
  "fst (call_ret e r) = [e]"
  "snd (call_ret e (Some v)) = Inr v"
  "snd (call_ret e None) = Inl (Raised e)"
  by (simp_all add: call_ret_def)

lemma call_ret_Inr_iff [simp]: "snd (call_ret e r) = Inr v \<longleftrightarrow> r = Some v"
  by (cases r) simp_all

subsection \<open>Splitting strings\<close>

lemma split_on_nonempty [simp]: "split_on c s \<noteq> []"
  by (induction s) (auto split: list.splits)

lemma split_on_absent: "c \<notin> set s \<Longrightarrow> split_on c s = [s]"
  by (induction s) auto

lemma split_on_append: "split_on c (xs @ c # ys) = split_on c xs @ split_on c ys"
proof (induction xs)
  case Nil
  then show ?case by simp
next
  case (Cons x xs)
  then show ?case
    by (cases "split_on c xs") (auto split: list.splits)
qed

lemma length_split_on: "length (split_on c s) = Suc (count_list s c)"
  by (induction s) (auto split: list.splits)

lemma split_on_parts: "w \<in> set (split_on c s) \<Longrightarrow> c \<notin> set w"
  by (induction s arbitrary: w) (auto split: list.splits if_splits)

lemma join_split_on: "join [c] (split_on c s) = s"
proof (induction s)
  case Nil
  then show ?case by simp
next
  case (Cons x xs)
  show ?case
  proof (cases "x = c")
    case True
    with Cons show ?thesis
      by (cases "split_on c xs") simp_all
  next
    case False
    with Cons show ?thesis
      by (cases "split_on c xs"; cases "tl (split_on c xs)") auto
  qed
qed

lemma join_snoc: "ws \<noteq> [] \<Longrightarrow> join sep (ws @ [w]) = join sep ws @ sep @ w"
  by (induction sep ws rule: join.induct) simp_all

lemma split_on_two_iff:
  "split_on c s = [b, k] \<longleftrightarrow> s = b @ c # k \<and> c \<notin> set b \<and> c \<notin> set k"
proof
  assume h: "split_on c s = [b, k]"
  have "join [c] (split_on c s) = s" by (rule join_split_on)
  with h have "s = b @ c # k" by simp
  moreover from h have "c \<notin> set b" "c \<notin> set k"
    using split_on_parts [of b c s] split_on_parts [of k c s] by simp_all
  ultimately show "s = b @ c # k \<and> c \<notin> set b \<and> c \<notin> set k" by simp
next
  assume "s = b @ c # k \<and> c \<notin> set b \<and> c \<notin> set k"
  then show "split_on c s = [b, k]"
    by (simp add: split_on_append split_on_absent)
qed

lemma unpack2_Inr_iff: "unpack2 ws = Inr (b, k) \<longleftrightarrow> ws = [b, k]"
  by (auto simp: unpack2_def split: list.splits)

lemma unpack2_cases:
  "(\<exists>b k. ws = [b, k] \<and> unpack2 ws = Inr (b, k)) \<or>
   (length ws \<noteq> 2 \<and> (\<exists>msg. unpack2 ws = Inl (ValueError msg)))"
  by (auto simp: unpack2_def split: list.splits)

subsection \<open>What each stage can emit\<close>

lemma in_then_do_iff:
  "e \<in> set (fst (then_do m f)) \<longleftrightarrow>
   e \<in> set (fst m) \<or> (\<exists>x. snd m = Inr x \<and> e \<in> set (fst (f x)))"
  by (auto simp: then_do_def split: sum.splits)

lemma call_Inr_iff [simp]: "snd (call en e) = Inr u \<longleftrightarrow> call_ok en e"
  by simp

lemma unpack2_two [simp]: "unpack2 [b, k] = Inr (b, k)"
  by (simp add: unpack2_def)

lemma then_do_pair [simp]:
  "then_do (t, Inr x) f = (t @ fst (f x), snd (f x))"
  "then_do (t, Inl e) f = (t, Inl e)"
  by (simp_all add: then_do_def)

lemma defaultStats_events:
  "e \<in> set (fst (defaultStats args en m)) \<Longrightarrow>
   \<not> nogdalstats args \<and>
   (e = GetRasterBand 1 \<or> e = GetDefaultRAT \<or> e = GetColOfUsage_PixelCount \<or>
    e = RatReadAsArray \<or> (\<exists>h. histogram en = Some h \<and> e = EstimateStatsFromHisto h) \<or>
    e = WriteRandomColourTable (m + 1) \<or> e = AddOverviews)"
  by (auto simp: defaultStats_def in_then_do_iff split: if_splits)

lemma stats_loop_events:
  "e \<in> set (fst (stats_loop en lo cs doc)) \<Longrightarrow>
   \<exists>img bandnum selection. (img, bandnum, selection) \<in> set doc \<and>
     e = CalcPerSegmentStatsRIOS img bandnum lo selection cs"
  by (induction en lo cs doc rule: stats_loop.induct)
     (auto simp: in_then_do_iff split: if_splits)

lemma stats_loop_success:
  "snd (stats_loop en lo cs doc) = Inr () \<Longrightarrow>
   fst (stats_loop en lo cs doc) =
     map (\<lambda>(img, bandnum, selection). CalcPerSegmentStatsRIOS img bandnum lo selection cs) doc"
  by (induction en lo cs doc rule: stats_loop.induct)
     (auto simp: then_do_Inr_iff split: if_splits)

lemma perSegmentStats_events:
  "e \<in> set (fst (perSegmentStats args en lo cs)) \<Longrightarrow>
   \<exists>locator bkt k. stats args = Some locator \<and> split_on CHR '':'' locator = [bkt, k] \<and>
     (e = S3DownloadFileobj bkt k \<or>
      (\<exists>img bandnum selection. e = CalcPerSegmentStatsRIOS img bandnum lo selection cs))"
  by (auto simp: perSegmentStats_def parse_locator_def in_then_do_iff unpack2_Inr_iff
      split: option.splits dest: stats_loop_events)

lemma perSegmentStats_success:
  "snd (perSegmentStats args en lo cs) = Inr sk \<Longrightarrow>
   (stats args = None \<and> sk = None \<and> fst (perSegmentStats args en lo cs) = []) \<or>
   (\<exists>locator bkt k doc. stats args = Some locator \<and> split_on CHR '':'' locator = [bkt, k] \<and>
      sk = Some k \<and> stats_json_at en bkt k = Some doc \<and>
      fst (perSegmentStats args en lo cs) =
        S3DownloadFileobj bkt k #
        map (\<lambda>(img, bandnum, selection). CalcPerSegmentStatsRIOS img bandnum lo selection cs) doc)"
  by (auto simp: perSegmentStats_def parse_locator_def then_do_Inr_iff unpack2_Inr_iff
      split: option.splits dest: stats_loop_success)


lemma resolve_userFunc_events:
  "e \<in> set (fst (resolve_userFunc en name)) \<Longrightarrow> \<exists>m. e = ImportModule m"
  by (auto simp: resolve_userFunc_def Let_def in_then_do_iff split: if_splits option.splits)

lemma spatial_loop_events:
  "e \<in> set (fst (spatial_loop en lo cs doc)) \<Longrightarrow>
   (\<exists>m. e = ImportModule m) \<or>
   (\<exists>img bandnum colInfo userFunc param.
      e = CalcPerSegmentSpatialStatsRIOS img bandnum lo colInfo userFunc param cs)"
  by (induction en lo cs doc rule: spatial_loop.induct)
     (auto simp: in_then_do_iff split: if_splits pyvalue.splits dest: resolve_userFunc_events)

lemma perSegmentSpatialStats_events:
  "e \<in> set (fst (perSegmentSpatialStats args en lo cs)) \<Longrightarrow>
   \<exists>locator bkt k. spatialstats args = Some locator \<and>
     split_on CHR '':'' locator = [bkt, k] \<and>
     (e = S3DownloadFileobj bkt k \<or> (\<exists>m. e = ImportModule m) \<or>
      (\<exists>img bandnum colInfo userFunc param.
         e = CalcPerSegmentSpatialStatsRIOS img bandnum lo colInfo userFunc param cs))"
  by (auto simp: perSegmentSpatialStats_def parse_locator_def in_then_do_iff unpack2_Inr_iff
      split: option.splits dest: spatial_loop_events)

lemma perSegmentSpatialStats_success:
  "snd (perSegmentSpatialStats args en lo cs) = Inr ssk \<Longrightarrow>
   (spatialstats args = None \<and> ssk = None \<and>
      fst (perSegmentSpatialStats args en lo cs) = []) \<or>
   (\<exists>locator bkt k doc. spatialstats args = Some locator \<and>
      split_on CHR '':'' locator = [bkt, k] \<and>
      ssk = Some k \<and> spatial_json_at en bkt k = Some doc \<and>
      snd (spatial_loop en lo cs doc) = Inr () \<and>
      fst (perSegmentSpatialStats args en lo cs) =
        S3DownloadFileobj bkt k # fst (spatial_loop en lo cs doc))"
  by (auto simp: perSegmentSpatialStats_def parse_locator_def then_do_Inr_iff unpack2_Inr_iff
      split: option.splits)

lemma tileCleanup_events:
  "e \<in> set (fst (tileCleanup args en d)) \<Longrightarrow>
   \<not> noremove args \<and> (\<exists>ks. e = S3DeleteObjects (bucket args) ks)"
  by (auto simp: tileCleanup_def split: if_splits dest: delete_loop_events)

lemma finalCleanup_events:
  "e \<in> set (fst (finalCleanup args en sk ssk)) \<Longrightarrow>
   \<not> noremove args \<and> (\<exists>ks. e = S3DeleteObjects (bucket args) ks)"
  by (auto simp: finalCleanup_def in_then_do_iff append_key_def split: if_splits option.splits)

lemma finalCleanup_trace:
  assumes "\<not> noremove args"
    and "stats args = None \<longleftrightarrow> sk = None"
    and "spatialstats args = None \<longleftrightarrow> ssk = None"
  shows "fst (finalCleanup args en sk ssk) =
     [S3DeleteObjects (bucket args)
        (pickle args # (case sk of None \<Rightarrow> [] | Some k \<Rightarrow> [k]) @
           (case ssk of None \<Rightarrow> [] | Some k \<Rightarrow> [k]))]"
  using assms
  by (cases sk; cases ssk) (auto simp: finalCleanup_def append_key_def)

lemma main_events:
  assumes "e \<in> set (fst (main args en))"
  shows "e = S3DownloadFileobj (bucket args) (pickle args) \<or>
     e = GdalOpen (''/vsis3/'' @ bucket args @ ''/'' @ infile args) \<or>
     e = Mkdtemp \<or>
     (\<exists>d tempDir.
        pickle_at en (bucket args) (pickle args) = Some d \<and> mkdtemp_result en = Some tempDir \<and>
        (e = Finalize (''/vsis3/'' @ bucket args @ ''/'' @ infile args)
               (path_join tempDir (basename (outfile args)))
               (build_tileFilenames (bucket args) (tileprefix args) (colRowList d))
               (tileInfo d) (overlapsize args) tempDir True \<or>
         (\<exists>maxSegId hasEmptySegments.
            finalize_result en
              (build_tileFilenames (bucket args) (tileprefix args) (colRowList d))
              = Some (maxSegId, hasEmptySegments) \<and>
            (e \<in> set (fst (tileCleanup args en
                 (build_tileFilenames (bucket args) (tileprefix args) (colRowList d)))) \<or>
             e \<in> set (fst (defaultStats args en maxSegId)) \<or>
             e = DelLocalDs \<or>
             e \<in> set (fst (perSegmentStats args en
                 (path_join tempDir (basename (outfile args))) (make_concurrencyStyle args))) \<or>
             e \<in> set (fst (perSegmentSpatialStats args en
                 (path_join tempDir (basename (outfile args))) (make_concurrencyStyle args))) \<or>
             e = S3UploadFile (path_join tempDir (basename (outfile args)))
                   (bucket args) (outfile args) \<or>
             (\<exists>sk ssk.
                snd (perSegmentStats args en (path_join tempDir (basename (outfile args)))
                   (make_concurrencyStyle args)) = Inr sk \<and>
                snd (perSegmentSpatialStats args en
                   (path_join tempDir (basename (outfile args)))
                   (make_concurrencyStyle args)) = Inr ssk \<and>
                e \<in> set (fst (finalCleanup args en sk ssk))) \<or>
             e = Rmtree tempDir))))"
  using assms unfolding main_def Let_def
  by (simp add: in_then_do_iff split: prod.splits) blast


lemma main_success:
  assumes ok: "snd (main args en) = Inr ()"
  shows "\<exists>d tempDir maxSegId hasEmptySegments sk ssk.
    pickle_at en (bucket args) (pickle args) = Some d \<and>
    mkdtemp_result en = Some tempDir \<and>
    finalize_result en (build_tileFilenames (bucket args) (tileprefix args) (colRowList d))
       = Some (maxSegId, hasEmptySegments) \<and>
    snd (tileCleanup args en
       (build_tileFilenames (bucket args) (tileprefix args) (colRowList d))) = Inr () \<and>
    snd (defaultStats args en maxSegId) = Inr () \<and>
    snd (perSegmentStats args en (path_join tempDir (basename (outfile args)))
       (make_concurrencyStyle args)) = Inr sk \<and>
    snd (perSegmentSpatialStats args en (path_join tempDir (basename (outfile args)))
       (make_concurrencyStyle args)) = Inr ssk \<and>
    snd (finalCleanup args en sk ssk) = Inr () \<and>
    fst (main args en) =
       S3DownloadFileobj (bucket args) (pickle args) #
       GdalOpen (''/vsis3/'' @ bucket args @ ''/'' @ infile args) #
       Mkdtemp #
       Finalize (''/vsis3/'' @ bucket args @ ''/'' @ infile args)
         (path_join tempDir (basename (outfile args)))
         (build_tileFilenames (bucket args) (tileprefix args) (colRowList d))
         (tileInfo d) (overlapsize args) tempDir True #
       fst (tileCleanup args en
         (build_tileFilenames (bucket args) (tileprefix args) (colRowList d))) @
       fst (defaultStats args en maxSegId) @
       DelLocalDs #
       fst (perSegmentStats args en (path_join tempDir (basename (outfile args)))
         (make_concurrencyStyle args)) @
       fst (perSegmentSpatialStats args en (path_join tempDir (basename (outfile args)))
         (make_concurrencyStyle args)) @
       S3UploadFile (path_join tempDir (basename (outfile args))) (bucket args) (outfile args) #
       fst (finalCleanup args en sk ssk) @
       [Rmtree tempDir]"
  using ok unfolding main_def Let_def
  by (clarsimp simp: then_do_Inr_iff fst_then_do split: prod.splits)

subsection \<open>Short key lists, and what comes before the raster is closed\<close>

lemma delete_loop_short:
  "objs \<noteq> [] \<Longrightarrow> length objs \<le> 1000 \<Longrightarrow>
   delete_loop en bkt objs =
     ([S3DeleteObjects bkt objs],
      if call_ok en (S3DeleteObjects bkt objs) then Inr ()
      else Inl (Raised (S3DeleteObjects bkt objs)))"
  by (subst delete_loop.simps) simp

lemma defaultStats_before_close:
  "takeWhile (\<lambda>e. e \<noteq> DelLocalDs) (fst (defaultStats args en m) @ rest) =
     fst (defaultStats args en m) @ takeWhile (\<lambda>e. e \<noteq> DelLocalDs) rest"
  by (rule takeWhile_append2) (auto dest: defaultStats_events)

lemma defaultStats_no_delete: "filter is_delete (fst (defaultStats args en m)) = []"
  by (auto simp: filter_empty_conv is_delete_def dest!: defaultStats_events)

lemma scenario_keys:
  "map (tile_key ''run1'') [(0, 0), (0, 1), (1, 0), (1, 1)] =
     [''run1_0_0.tif'', ''run1_0_1.tif'', ''run1_1_0.tif'', ''run1_1_1.tif'']"
  by (simp add: tile_key_def format_tile_def str_int_small)

subsection \<open>C3: scenario A\<close>

text \<open>
  Claim C3. With tile prefix \<open>run1\<close> and the coordinate list (0,0), (0,1), (1,0), (1,1),
  the tile keys are \<open>run1_0_0.tif\<close>, \<open>run1_0_1.tif\<close>, \<open>run1_1_0.tif\<close> and
  \<open>run1_1_1.tif\<close> (prefix, column, row and the extension \<open>tif\<close>); the dictionary
  handed to the finalisation maps each coordinate to the GDAL path of its key in the
  bucket; and when tiles are to be removed, the tile cleanup issues one delete call, with
  exactly those four keys. In a run of \<open>main\<close> whose preparation state holds that
  list and whose finalisation returns, that call is the fifth call of the run and the only
  delete before the raster is closed.
\<close>

theorem scenario_A:
  assumes "tileprefix args = ''run1''" and "\<not> noremove args"
  shows
    "map (tile_key (tileprefix args)) [(0, 0), (0, 1), (1, 0), (1, 1)] =
       [''run1_0_0.tif'', ''run1_0_1.tif'', ''run1_1_0.tif'', ''run1_1_1.tif''] \<and>
     build_tileFilenames (bucket args) (tileprefix args) [(0, 0), (0, 1), (1, 0), (1, 1)] =
       [((0, 0), ''/vsis3/'' @ bucket args @ ''/run1_0_0.tif''),
        ((0, 1), ''/vsis3/'' @ bucket args @ ''/run1_0_1.tif''),
        ((1, 0), ''/vsis3/'' @ bucket args @ ''/run1_1_0.tif''),
        ((1, 1), ''/vsis3/'' @ bucket args @ ''/run1_1_1.tif'')] \<and>
     fst (tileCleanup args en
        (build_tileFilenames (bucket args) (tileprefix args) [(0, 0), (0, 1), (1, 0), (1, 1)])) =
       [S3DeleteObjects (bucket args)
          [''run1_0_0.tif'', ''run1_0_1.tif'', ''run1_1_0.tif'', ''run1_1_1.tif'']] \<and>
     (\<forall>d tempDir maxSegId hasEmptySegments.
        pickle_at en (bucket args) (pickle args) = Some d \<and>
        colRowList d = [(0, 0), (0, 1), (1, 0), (1, 1)] \<and>
        call_ok en (GdalOpen (''/vsis3/'' @ bucket args @ ''/'' @ infile args)) \<and>
        mkdtemp_result en = Some tempDir \<and>
        finalize_result en (build_tileFilenames (bucket args) (tileprefix args) (colRowList d)) =
          Some (maxSegId, hasEmptySegments) \<longrightarrow>
        take 5 (fst (main args en)) =
          [S3DownloadFileobj (bucket args) (pickle args),
           GdalOpen (''/vsis3/'' @ bucket args @ ''/'' @ infile args),
           Mkdtemp,
           Finalize (''/vsis3/'' @ bucket args @ ''/'' @ infile args)
             (path_join tempDir (basename (outfile args)))
             (build_tileFilenames (bucket args) (tileprefix args) (colRowList d))
             (tileInfo d) (overlapsize args) tempDir True,
           S3DeleteObjects (bucket args)
             [''run1_0_0.tif'', ''run1_0_1.tif'', ''run1_1_0.tif'', ''run1_1_1.tif'']] \<and>
        filter is_delete (takeWhile (\<lambda>e. e \<noteq> DelLocalDs) (fst (main args en))) =
          [S3DeleteObjects (bucket args)
             [''run1_0_0.tif'', ''run1_0_1.tif'', ''run1_1_0.tif'', ''run1_1_1.tif'']])"
proof -
  let ?crs = "[(0, 0), (0, 1), (1, 0), (1, 1)] :: (int \<times> int) list"
  let ?keys = "[''run1_0_0.tif'', ''run1_0_1.tif'', ''run1_1_0.tif'', ''run1_1_1.tif'']"
  let ?tf = "build_tileFilenames (bucket args) (tileprefix args) ?crs"
  have keys: "map (tile_key (tileprefix args)) ?crs = ?keys"
    using assms(1) scenario_keys by simp
  have dist: "distinct ?crs" by simp
  have tf: "?tf = map (\<lambda>cr. (cr, tile_filename (bucket args) (tileprefix args) cr)) ?crs"
    using dist by (rule build_tileFilenames_distinct_input)
  have objs: "tile_objs (tileprefix args) ?tf = ?keys"
    using keys by (simp add: tf tile_objs_def)
  have tf': "?tf =
       [((0, 0), ''/vsis3/'' @ bucket args @ ''/run1_0_0.tif''),
        ((0, 1), ''/vsis3/'' @ bucket args @ ''/run1_0_1.tif''),
        ((1, 0), ''/vsis3/'' @ bucket args @ ''/run1_1_0.tif''),
        ((1, 1), ''/vsis3/'' @ bucket args @ ''/run1_1_1.tif'')]"
    using keys by (simp add: tf tile_filename_def)
  have tc: "tileCleanup args en ?tf =
       ([S3DeleteObjects (bucket args) ?keys],
        if call_ok en (S3DeleteObjects (bucket args) ?keys) then Inr ()
        else Inl (Raised (S3DeleteObjects (bucket args) ?keys)))"
    using assms(2) by (simp add: tileCleanup_def objs delete_loop_short)
  have main_part: "take 5 (fst (main args en)) =
          [S3DownloadFileobj (bucket args) (pickle args),
           GdalOpen (''/vsis3/'' @ bucket args @ ''/'' @ infile args),
           Mkdtemp,
           Finalize (''/vsis3/'' @ bucket args @ ''/'' @ infile args)
             (path_join tempDir (basename (outfile args)))
             (build_tileFilenames (bucket args) (tileprefix args) (colRowList d))
             (tileInfo d) (overlapsize args) tempDir True,
           S3DeleteObjects (bucket args) ?keys] \<and>
        filter is_delete (takeWhile (\<lambda>e. e \<noteq> DelLocalDs) (fst (main args en))) =
          [S3DeleteObjects (bucket args) ?keys]"
    if h: "pickle_at en (bucket args) (pickle args) = Some d"
      "colRowList d = ?crs"
      "call_ok en (GdalOpen (''/vsis3/'' @ bucket args @ ''/'' @ infile args))"
      "mkdtemp_result en = Some tempDir"
      "finalize_result en (build_tileFilenames (bucket args) (tileprefix args) (colRowList d)) =
          Some (maxSegId, hasEmptySegments)"
    for d tempDir maxSegId hasEmptySegments
  proof -
    from h(5) have fin: "finalize_result en ?tf = Some (maxSegId, hasEmptySegments)"
      by (simp add: h(2))
    show ?thesis
      unfolding main_def Let_def
      using h(1,3,4) fin
      by (simp add: h(2) tc fst_then_do is_delete_def defaultStats_before_close
          defaultStats_no_delete split: sum.splits)
  qed
  have c3: "fst (tileCleanup args en ?tf) = [S3DeleteObjects (bucket args) ?keys]"
    by (simp add: tc)
  from keys tf' c3 main_part show ?thesis by blast
qed


theorem scenario_A_witness:
  "tileprefix example_args = ''run1'' \<and> \<not> noremove example_args \<and>
   map (tile_key (tileprefix example_args)) [(0, 0), (0, 1), (1, 0), (1, 1)] =
     [''run1_0_0.tif'', ''run1_0_1.tif'', ''run1_1_0.tif'', ''run1_1_1.tif''] \<and>
   fst (tileCleanup example_args example_env
      (build_tileFilenames ''b'' ''run1'' [(0, 0), (0, 1), (1, 0), (1, 1)])) =
     [S3DeleteObjects ''b''
        [''run1_0_0.tif'', ''run1_0_1.tif'', ''run1_1_0.tif'', ''run1_1_1.tif'']] \<and>
   filter is_delete (takeWhile (\<lambda>e. e \<noteq> DelLocalDs) (fst (main example_args example_env))) =
     [S3DeleteObjects ''b''
        [''run1_0_0.tif'', ''run1_0_1.tif'', ''run1_1_0.tif'', ''run1_1_1.tif'']]"
proof -
  have h1: "tileprefix example_args = ''run1''"
    by (simp add: example_args_def)
  have h2: "\<not> noremove example_args"
    by (simp add: example_args_def)
  note t = scenario_A [OF h1 h2, of example_env]
  have g3: "map (tile_key (tileprefix example_args)) [(0, 0), (0, 1), (1, 0), (1, 1)] =
     [''run1_0_0.tif'', ''run1_0_1.tif'', ''run1_1_0.tif'', ''run1_1_1.tif'']"
    using t by (rule conjunct1)
  have g4: "fst (tileCleanup example_args example_env
      (build_tileFilenames ''b'' ''run1'' [(0, 0), (0, 1), (1, 0), (1, 1)])) =
     [S3DeleteObjects ''b''
        [''run1_0_0.tif'', ''run1_0_1.tif'', ''run1_1_0.tif'', ''run1_1_1.tif'']]"
    using t [THEN conjunct2, THEN conjunct2, THEN conjunct1]
    by (simp add: example_args_def)
  have g5: "filter is_delete
      (takeWhile (\<lambda>e. e \<noteq> DelLocalDs) (fst (main example_args example_env))) =
     [S3DeleteObjects ''b''
        [''run1_0_0.tif'', ''run1_0_1.tif'', ''run1_1_0.tif'', ''run1_1_1.tif'']]"
    using t [THEN conjunct2, THEN conjunct2, THEN conjunct2, rule_format,
        of "\<lparr> colRowList = [(0, 0), (0, 1), (1, 0), (1, 1)], tileInfo = PyNone \<rparr>"
          "''/tmp/x''" 41 False, THEN conjunct2]
    by (simp add: example_args_def example_env_def)
  from h1 h2 g3 g4 g5 show ?thesis by (intro conjI)
qed

subsection \<open>The example run\<close>

lemma example_tiles:
  "build_tileFilenames ''b'' ''run1'' [(0, 0), (0, 1), (1, 0), (1, 1)] =
     [((0, 0), ''/vsis3/b/run1_0_0.tif''), ((0, 1), ''/vsis3/b/run1_0_1.tif''),
      ((1, 0), ''/vsis3/b/run1_1_0.tif''), ((1, 1), ''/vsis3/b/run1_1_1.tif'')]"
  by (simp add: build_tileFilenames_def tile_filename_def tile_key_def format_tile_def
      str_int_small)

lemma example_resolve:
  "resolve_userFunc example_env ''mypkg.myfunc'' =
     ([ImportModule ''mypkg''], Inr (PyFunction ''myfunc''))"
  by (simp add: resolve_userFunc_def example_env_def Let_def)

lemma example_run:
  "main example_args example_env =
     ([S3DownloadFileobj ''b'' ''prep.pkl'',
       GdalOpen ''/vsis3/b/in.tif'',
       Mkdtemp,
       Finalize ''/vsis3/b/in.tif'' ''/tmp/x/seg.kea''
         [((0, 0), ''/vsis3/b/run1_0_0.tif''), ((0, 1), ''/vsis3/b/run1_0_1.tif''),
          ((1, 0), ''/vsis3/b/run1_1_0.tif''), ((1, 1), ''/vsis3/b/run1_1_1.tif'')]
         PyNone 5 ''/tmp/x'' True,
       S3DeleteObjects ''b''
         [''run1_0_0.tif'', ''run1_0_1.tif'', ''run1_1_0.tif'', ''run1_1_1.tif''],
       GetRasterBand 1, GetDefaultRAT, GetColOfUsage_PixelCount, RatReadAsArray,
       EstimateStatsFromHisto (PyList [PyInt 3]), WriteRandomColourTable 42, AddOverviews,
       DelLocalDs,
       S3DownloadFileobj ''sb'' ''s.json'',
       CalcPerSegmentStatsRIOS (PyStr ''img.tif'') (PyInt 1) ''/tmp/x/seg.kea''
         (PyList [PyStr ''mean''])
         \<lparr> numReadWorkers = 2, readBufferPopTimeout = Some 30,
           readBufferInsertTimeout = Some 30, computeBufferInsertTimeout = Some 30,
           computeBufferPopTimeout = Some 30 \<rparr>,
       S3DownloadFileobj ''b'' ''sp.json'',
       ImportModule ''mypkg'',
       CalcPerSegmentSpatialStatsRIOS (PyStr ''img.tif'') (PyInt 1) ''/tmp/x/seg.kea''
         (PyList []) (PyFunction ''myfunc'') (PyInt 7)
         \<lparr> numReadWorkers = 2, readBufferPopTimeout = Some 30,
           readBufferInsertTimeout = Some 30, computeBufferInsertTimeout = Some 30,
           computeBufferPopTimeout = Some 30 \<rparr>,
       S3UploadFile ''/tmp/x/seg.kea'' ''b'' ''out/seg.kea'',
       S3DeleteObjects ''b'' [''prep.pkl'', ''s.json'', ''sp.json''],
       Rmtree ''/tmp/x''],
      Inr ())"
  by (simp add: main_def Let_def example_args_def example_env_def example_tiles example_resolve
      [unfolded example_env_def]
      tileCleanup_def tile_objs_def tile_key_def format_tile_def str_int_small
      delete_loop_short defaultStats_def make_concurrencyStyle_def
      perSegmentStats_def perSegmentSpatialStats_def parse_locator_def
      finalCleanup_def append_key_def basename_def path_join_def)


subsection \<open>C5: the concurrency style\<close>

text \<open>
  Claim C5. With \<open>--readworkerstimeouts t\<close> the concurrency style carries the
  read-worker count and the value \<open>t\<close> in each of the four timeout fields (read-buffer
  pop and insert, compute-buffer insert and pop); without it, only the read-worker count
  is passed and no timeout field is set. Every per-segment statistics call and every
  spatial statistics call of every run is given that concurrency style.
\<close>

theorem concurrency_derivation:
  "(\<forall>t. readworkerstimeouts args = Some t \<longrightarrow>
      make_concurrencyStyle args =
        \<lparr> numReadWorkers = statsreadworkers args,
          readBufferPopTimeout = Some t, readBufferInsertTimeout = Some t,
          computeBufferInsertTimeout = Some t, computeBufferPopTimeout = Some t \<rparr>) \<and>
   (readworkerstimeouts args = None \<longrightarrow>
      make_concurrencyStyle args =
        \<lparr> numReadWorkers = statsreadworkers args,
          readBufferPopTimeout = None, readBufferInsertTimeout = None,
          computeBufferInsertTimeout = None, computeBufferPopTimeout = None \<rparr>) \<and>
   (\<forall>e \<in> set (fst (main args en)). \<forall>cs.
      call_concurrency e = Some cs \<longrightarrow> cs = make_concurrencyStyle args)"
proof (intro conjI ballI allI impI)
  fix t assume "readworkerstimeouts args = Some t"
  then show "make_concurrencyStyle args =
        \<lparr> numReadWorkers = statsreadworkers args,
          readBufferPopTimeout = Some t, readBufferInsertTimeout = Some t,
          computeBufferInsertTimeout = Some t, computeBufferPopTimeout = Some t \<rparr>"
    by (simp add: make_concurrencyStyle_def)
next
  assume "readworkerstimeouts args = None"
  then show "make_concurrencyStyle args =
        \<lparr> numReadWorkers = statsreadworkers args,
          readBufferPopTimeout = None, readBufferInsertTimeout = None,
          computeBufferInsertTimeout = None, computeBufferPopTimeout = None \<rparr>"
    by (simp add: make_concurrencyStyle_def)
next
  fix e cs
  assume e: "e \<in> set (fst (main args en))" and c: "call_concurrency e = Some cs"
  from main_events [OF e] c show "cs = make_concurrencyStyle args"
    by (auto simp: call_concurrency_def
        dest!: tileCleanup_events defaultStats_events perSegmentStats_events
          perSegmentSpatialStats_events finalCleanup_events)
qed

theorem concurrency_derivation_witness:
  "readworkerstimeouts example_args = Some 30 \<and>
   make_concurrencyStyle example_args =
     \<lparr> numReadWorkers = 2,
       readBufferPopTimeout = Some 30, readBufferInsertTimeout = Some 30,
       computeBufferInsertTimeout = Some 30, computeBufferPopTimeout = Some 30 \<rparr> \<and>
   readworkerstimeouts (example_args \<lparr> readworkerstimeouts := None \<rparr>) = None \<and>
   make_concurrencyStyle (example_args \<lparr> readworkerstimeouts := None \<rparr>) =
     \<lparr> numReadWorkers = 2,
       readBufferPopTimeout = None, readBufferInsertTimeout = None,
       computeBufferInsertTimeout = None, computeBufferPopTimeout = None \<rparr> \<and>
   CalcPerSegmentStatsRIOS (PyStr ''img.tif'') (PyInt 1) ''/tmp/x/seg.kea''
       (PyList [PyStr ''mean'']) (make_concurrencyStyle example_args)
     \<in> set (fst (main example_args example_env))"
proof -
  have a: "readworkerstimeouts example_args = Some 30"
    by (simp add: example_args_def)
  have b: "readworkerstimeouts (example_args \<lparr> readworkerstimeouts := None \<rparr>) = None"
    by simp
  have s: "statsreadworkers example_args = 2"
    by (simp add: example_args_def)
  let ?e = "CalcPerSegmentStatsRIOS (PyStr ''img.tif'') (PyInt 1) ''/tmp/x/seg.kea''
       (PyList [PyStr ''mean''])
       \<lparr> numReadWorkers = 2, readBufferPopTimeout = Some 30,
         readBufferInsertTimeout = Some 30, computeBufferInsertTimeout = Some 30,
         computeBufferPopTimeout = Some 30 \<rparr>"
  have e: "?e \<in> set (fst (main example_args example_env))"
    by (simp add: example_run)
  have c: "call_concurrency ?e = Some \<lparr> numReadWorkers = 2, readBufferPopTimeout = Some 30,
         readBufferInsertTimeout = Some 30, computeBufferInsertTimeout = Some 30,
         computeBufferPopTimeout = Some 30 \<rparr>"
    by (simp add: call_concurrency_def)
  note t1 = concurrency_derivation [of example_args example_env]
  note t2 = concurrency_derivation
    [of "example_args \<lparr> readworkerstimeouts := None \<rparr>" example_env]
  from t1 a s have m1: "make_concurrencyStyle example_args =
     \<lparr> numReadWorkers = 2,
       readBufferPopTimeout = Some 30, readBufferInsertTimeout = Some 30,
       computeBufferInsertTimeout = Some 30, computeBufferPopTimeout = Some 30 \<rparr>"
    by simp
  from t2 b s have m2: "make_concurrencyStyle (example_args \<lparr> readworkerstimeouts := None \<rparr>) =
     \<lparr> numReadWorkers = 2,
       readBufferPopTimeout = None, readBufferInsertTimeout = None,
       computeBufferInsertTimeout = None, computeBufferPopTimeout = None \<rparr>"
    by simp
  from t1 e c have m3: "\<lparr> numReadWorkers = 2, readBufferPopTimeout = Some 30,
         readBufferInsertTimeout = Some 30, computeBufferInsertTimeout = Some 30,
         computeBufferPopTimeout = Some 30 \<rparr> = make_concurrencyStyle example_args"
    by blast
  from a b m1 m2 e m3 show ?thesis by simp
qed

subsection \<open>The default statistics stage\<close>

lemma defaultStats_success:
  "\<not> nogdalstats args \<Longrightarrow> snd (defaultStats args en m) = Inr () \<Longrightarrow>
   \<exists>hist. histogram en = Some hist \<and>
     fst (defaultStats args en m) =
       [GetRasterBand 1, GetDefaultRAT, GetColOfUsage_PixelCount, RatReadAsArray,
        EstimateStatsFromHisto hist, WriteRandomColourTable (m + 1), AddOverviews]"
  by (auto simp: defaultStats_def then_do_Inr_iff split: if_splits)

lemma defaultStats_prefix:
  "prefix (fst (defaultStats args en m))
     ([GetRasterBand 1, GetDefaultRAT, GetColOfUsage_PixelCount, RatReadAsArray] @
      (case histogram en of
         None \<Rightarrow> []
       | Some hist \<Rightarrow>
           [EstimateStatsFromHisto hist, WriteRandomColourTable (m + 1), AddOverviews]))"
  by (cases "histogram en") (simp_all add: defaultStats_def fst_then_do ret_def)

lemma defaultStats_all: "filter is_default_stats (fst (defaultStats args en m)) = fst (defaultStats args en m)"
  by (auto simp: filter_id_conv is_default_stats_def dest!: defaultStats_events)

lemma tileCleanup_no_default: "filter is_default_stats (fst (tileCleanup args en d)) = []"
  by (auto simp: filter_empty_conv is_default_stats_def dest!: tileCleanup_events)

lemma perSegmentStats_no_default:
  "filter is_default_stats (fst (perSegmentStats args en lo cs)) = []"
  by (auto simp: filter_empty_conv is_default_stats_def dest!: perSegmentStats_events)

lemma perSegmentSpatialStats_no_default:
  "filter is_default_stats (fst (perSegmentSpatialStats args en lo cs)) = []"
  by (auto simp: filter_empty_conv is_default_stats_def dest!: perSegmentSpatialStats_events)

lemma finalCleanup_no_default:
  "filter is_default_stats (fst (finalCleanup args en sk ssk)) = []"
  by (auto simp: filter_empty_conv is_default_stats_def dest!: finalCleanup_events)

subsection \<open>C6: the default raster statistics\<close>

text \<open>
  Claim C6. Without \<open>--nogdalstats\<close>, the stage fetches band 1, its default raster
  attribute table, the pixel-count column and reads that column, and then calls, in this
  order, \<open>estimateStatsFromHisto\<close> on the histogram read,
  \<open>writeRandomColourTable\<close> with \<open>maxSegId + 1\<close> and \<open>addOverviews\<close>: the
  calls made are always an initial part of that sequence, and the whole of it when none
  of them raises; in a run that completes, these are all the raster-statistics calls of
  the run, with the \<open>maxSegId\<close> that the finalisation returned. With
  \<open>--nogdalstats\<close> the stage does nothing and no run contains any of these calls.
\<close>

theorem default_stats_stage:
  "(\<not> nogdalstats args \<longrightarrow>
      prefix (fst (defaultStats args en maxSegId))
        ([GetRasterBand 1, GetDefaultRAT, GetColOfUsage_PixelCount, RatReadAsArray] @
         (case histogram en of
            None \<Rightarrow> []
          | Some hist \<Rightarrow>
              [EstimateStatsFromHisto hist, WriteRandomColourTable (maxSegId + 1),
               AddOverviews]))) \<and>
   (\<not> nogdalstats args \<and> snd (defaultStats args en maxSegId) = Inr () \<longrightarrow>
      (\<exists>hist. histogram en = Some hist \<and>
         fst (defaultStats args en maxSegId) =
           [GetRasterBand 1, GetDefaultRAT, GetColOfUsage_PixelCount, RatReadAsArray,
            EstimateStatsFromHisto hist, WriteRandomColourTable (maxSegId + 1),
            AddOverviews])) \<and>
   (nogdalstats args \<longrightarrow> defaultStats args en maxSegId = ([], Inr ())) \<and>
   (nogdalstats args \<longrightarrow> (\<forall>e \<in> set (fst (main args en)). \<not> is_default_stats e)) \<and>
   (\<not> nogdalstats args \<and> snd (main args en) = Inr () \<longrightarrow>
      (\<exists>d m hasEmptySegments hist.
         pickle_at en (bucket args) (pickle args) = Some d \<and>
         finalize_result en
           (build_tileFilenames (bucket args) (tileprefix args) (colRowList d)) =
           Some (m, hasEmptySegments) \<and>
         histogram en = Some hist \<and>
         filter is_default_stats (fst (main args en)) =
           [GetRasterBand 1, GetDefaultRAT, GetColOfUsage_PixelCount, RatReadAsArray,
            EstimateStatsFromHisto hist, WriteRandomColourTable (m + 1), AddOverviews]))"
proof -
  have 1: "prefix (fst (defaultStats args en maxSegId))
        ([GetRasterBand 1, GetDefaultRAT, GetColOfUsage_PixelCount, RatReadAsArray] @
         (case histogram en of
            None \<Rightarrow> []
          | Some hist \<Rightarrow>
              [EstimateStatsFromHisto hist, WriteRandomColourTable (maxSegId + 1),
               AddOverviews]))"
    by (rule defaultStats_prefix)
  have 2: "\<not> nogdalstats args \<and> snd (defaultStats args en maxSegId) = Inr () \<longrightarrow>
      (\<exists>hist. histogram en = Some hist \<and>
         fst (defaultStats args en maxSegId) =
           [GetRasterBand 1, GetDefaultRAT, GetColOfUsage_PixelCount, RatReadAsArray,
            EstimateStatsFromHisto hist, WriteRandomColourTable (maxSegId + 1),
            AddOverviews])"
    using defaultStats_success by blast
  have 3: "nogdalstats args \<longrightarrow> defaultStats args en maxSegId = ([], Inr ())"
    by (simp add: defaultStats_def ret_def)
  have 4: "nogdalstats args \<longrightarrow> (\<forall>e \<in> set (fst (main args en)). \<not> is_default_stats e)"
  proof (intro impI ballI)
    fix e assume n: "nogdalstats args" and e: "e \<in> set (fst (main args en))"
    from main_events [OF e] n show "\<not> is_default_stats e"
      by (auto simp: is_default_stats_def
          dest!: tileCleanup_events defaultStats_events perSegmentStats_events
            perSegmentSpatialStats_events finalCleanup_events)
  qed
  have 5: "\<not> nogdalstats args \<and> snd (main args en) = Inr () \<longrightarrow>
      (\<exists>d m hasEmptySegments hist.
         pickle_at en (bucket args) (pickle args) = Some d \<and>
         finalize_result en
           (build_tileFilenames (bucket args) (tileprefix args) (colRowList d)) =
           Some (m, hasEmptySegments) \<and>
         histogram en = Some hist \<and>
         filter is_default_stats (fst (main args en)) =
           [GetRasterBand 1, GetDefaultRAT, GetColOfUsage_PixelCount, RatReadAsArray,
            EstimateStatsFromHisto hist, WriteRandomColourTable (m + 1), AddOverviews])"
  proof
    assume a: "\<not> nogdalstats args \<and> snd (main args en) = Inr ()"
    then have ok: "snd (main args en) = Inr ()" and n: "\<not> nogdalstats args" by simp_all
    from main_success [OF ok] obtain d tempDir m hasEmptySegments sk ssk where
      p: "pickle_at en (bucket args) (pickle args) = Some d"
      and f: "finalize_result en
           (build_tileFilenames (bucket args) (tileprefix args) (colRowList d)) =
           Some (m, hasEmptySegments)"
      and ds: "snd (defaultStats args en m) = Inr ()"
      and tr: "fst (main args en) =
       S3DownloadFileobj (bucket args) (pickle args) #
       GdalOpen (''/vsis3/'' @ bucket args @ ''/'' @ infile args) #
       Mkdtemp #
       Finalize (''/vsis3/'' @ bucket args @ ''/'' @ infile args)
         (path_join tempDir (basename (outfile args)))
         (build_tileFilenames (bucket args) (tileprefix args) (colRowList d))
         (tileInfo d) (overlapsize args) tempDir True #
       fst (tileCleanup args en
         (build_tileFilenames (bucket args) (tileprefix args) (colRowList d))) @
       fst (defaultStats args en m) @
       DelLocalDs #
       fst (perSegmentStats args en (path_join tempDir (basename (outfile args)))
         (make_concurrencyStyle args)) @
       fst (perSegmentSpatialStats args en (path_join tempDir (basename (outfile args)))
         (make_concurrencyStyle args)) @
       S3UploadFile (path_join tempDir (basename (outfile args))) (bucket args) (outfile args) #
       fst (finalCleanup args en sk ssk) @
       [Rmtree tempDir]"
      by blast
    from defaultStats_success [OF n ds] obtain hist where
      h: "histogram en = Some hist"
      and dt: "fst (defaultStats args en m) =
       [GetRasterBand 1, GetDefaultRAT, GetColOfUsage_PixelCount, RatReadAsArray,
        EstimateStatsFromHisto hist, WriteRandomColourTable (m + 1), AddOverviews]"
      by blast
    have "filter is_default_stats (fst (main args en)) = fst (defaultStats args en m)"
      unfolding tr
      by (simp add: defaultStats_all tileCleanup_no_default perSegmentStats_no_default
          perSegmentSpatialStats_no_default finalCleanup_no_default)
         (simp add: is_default_stats_def)
    with p f h dt show "\<exists>d m hasEmptySegments hist.
         pickle_at en (bucket args) (pickle args) = Some d \<and>
         finalize_result en
           (build_tileFilenames (bucket args) (tileprefix args) (colRowList d)) =
           Some (m, hasEmptySegments) \<and>
         histogram en = Some hist \<and>
         filter is_default_stats (fst (main args en)) =
           [GetRasterBand 1, GetDefaultRAT, GetColOfUsage_PixelCount, RatReadAsArray,
            EstimateStatsFromHisto hist, WriteRandomColourTable (m + 1), AddOverviews]"
      by auto
  qed
  from 1 2 3 4 5 show ?thesis by blast
qed


theorem default_stats_stage_witness:
  "\<not> nogdalstats example_args \<and> snd (main example_args example_env) = Inr () \<and>
   filter is_default_stats (fst (main example_args example_env)) =
     [GetRasterBand 1, GetDefaultRAT, GetColOfUsage_PixelCount, RatReadAsArray,
      EstimateStatsFromHisto (PyList [PyInt 3]), WriteRandomColourTable 42, AddOverviews] \<and>
   nogdalstats (example_args \<lparr> nogdalstats := True \<rparr>) \<and>
   defaultStats (example_args \<lparr> nogdalstats := True \<rparr>) example_env 41 = ([], Inr ())"
proof -
  have a: "\<not> nogdalstats example_args"
    by (simp add: example_args_def)
  have ok: "snd (main example_args example_env) = Inr ()"
    by (simp add: example_run)
  have b: "nogdalstats (example_args \<lparr> nogdalstats := True \<rparr>)"
    by simp
  from default_stats_stage [of example_args example_env 41, THEN conjunct2, THEN conjunct2,
      THEN conjunct2, THEN conjunct2, rule_format, OF conjI, OF a ok]
  obtain d :: prep and m hasEmptySegments hist where
    f: "finalize_result example_env
          (build_tileFilenames (bucket example_args) (tileprefix example_args) (colRowList d)) =
          Some (m, hasEmptySegments)"
    and h: "histogram example_env = Some hist"
    and tr: "filter is_default_stats (fst (main example_args example_env)) =
       [GetRasterBand 1, GetDefaultRAT, GetColOfUsage_PixelCount, RatReadAsArray,
        EstimateStatsFromHisto hist, WriteRandomColourTable (m + 1), AddOverviews]"
    by blast
  from f have m: "m = 41" by (simp add: example_env_def)
  from h have hist: "hist = PyList [PyInt 3]" by (simp add: example_env_def)
  from default_stats_stage [of "example_args \<lparr> nogdalstats := True \<rparr>" example_env 41,
      THEN conjunct2, THEN conjunct2, THEN conjunct1, rule_format, OF b]
  have c: "defaultStats (example_args \<lparr> nogdalstats := True \<rparr>) example_env 41 = ([], Inr ())" .
  from a ok b c tr m hist show ?thesis by simp
qed

subsection \<open>The final cleanup stage\<close>

lemma finalCleanup_kept:
  "noremove args \<Longrightarrow> finalCleanup args en sk ssk = ([], Inr ())"
  by (simp add: finalCleanup_def ret_def)

lemma stage_no_upload:
  "\<forall>e \<in> set (fst (tileCleanup args en d)). \<not> is_upload e"
  "\<forall>e \<in> set (fst (defaultStats args en m)). \<not> is_upload e"
  "\<forall>e \<in> set (fst (perSegmentStats args en lo cs)). \<not> is_upload e"
  "\<forall>e \<in> set (fst (perSegmentSpatialStats args en lo cs)). \<not> is_upload e"
  by (auto simp: is_upload_def
      dest!: tileCleanup_events defaultStats_events perSegmentStats_events
        perSegmentSpatialStats_events)

lemma stats_key_of_locator:
  "snd (perSegmentStats args en lo cs) = Inr sk \<Longrightarrow>
   (stats args = None \<and> sk = None) \<or>
   (\<exists>bkt k. stats args = Some (bkt @ CHR '':'' # k) \<and> CHR '':'' \<notin> set bkt \<and>
      CHR '':'' \<notin> set k \<and> sk = Some k)"
  by (drule perSegmentStats_success) (auto simp: split_on_two_iff)

lemma spatial_key_of_locator:
  "snd (perSegmentSpatialStats args en lo cs) = Inr ssk \<Longrightarrow>
   (spatialstats args = None \<and> ssk = None) \<or>
   (\<exists>bkt k. spatialstats args = Some (bkt @ CHR '':'' # k) \<and> CHR '':'' \<notin> set bkt \<and>
      CHR '':'' \<notin> set k \<and> ssk = Some k)"
  by (drule perSegmentSpatialStats_success) (auto simp: split_on_two_iff)

lemma main_success_tail:
  assumes ok: "snd (main args en) = Inr ()"
  shows "(\<exists>pre localOutfile tempDir ks1 ks2.
         fst (main args en) =
           pre @ S3UploadFile localOutfile (bucket args) (outfile args) #
             (if noremove args then []
              else [S3DeleteObjects (bucket args) (pickle args # ks1 @ ks2)]) @
             [Rmtree tempDir] \<and>
         (\<forall>e \<in> set pre. \<not> is_upload e) \<and>
         (stats args = None \<and> ks1 = [] \<or>
          (\<exists>bkt k. stats args = Some (bkt @ CHR '':'' # k) \<and> CHR '':'' \<notin> set bkt \<and>
             CHR '':'' \<notin> set k \<and> ks1 = [k])) \<and>
         (spatialstats args = None \<and> ks2 = [] \<or>
          (\<exists>bkt k. spatialstats args = Some (bkt @ CHR '':'' # k) \<and> CHR '':'' \<notin> set bkt \<and>
             CHR '':'' \<notin> set k \<and> ks2 = [k])))"
proof -
  from main_success [OF ok] obtain d :: prep and tempDir m hasEmptySegments sk' ssk' where
    s1: "snd (perSegmentStats args en (path_join tempDir (basename (outfile args)))
       (make_concurrencyStyle args)) = Inr sk'"
    and s2: "snd (perSegmentSpatialStats args en (path_join tempDir (basename (outfile args)))
       (make_concurrencyStyle args)) = Inr ssk'"
    and tr: "fst (main args en) =
       S3DownloadFileobj (bucket args) (pickle args) #
       GdalOpen (''/vsis3/'' @ bucket args @ ''/'' @ infile args) #
       Mkdtemp #
       Finalize (''/vsis3/'' @ bucket args @ ''/'' @ infile args)
         (path_join tempDir (basename (outfile args)))
         (build_tileFilenames (bucket args) (tileprefix args) (colRowList d))
         (tileInfo d) (overlapsize args) tempDir True #
       fst (tileCleanup args en
         (build_tileFilenames (bucket args) (tileprefix args) (colRowList d))) @
       fst (defaultStats args en m) @
       DelLocalDs #
       fst (perSegmentStats args en (path_join tempDir (basename (outfile args)))
         (make_concurrencyStyle args)) @
       fst (perSegmentSpatialStats args en (path_join tempDir (basename (outfile args)))
         (make_concurrencyStyle args)) @
       S3UploadFile (path_join tempDir (basename (outfile args))) (bucket args) (outfile args) #
       fst (finalCleanup args en sk' ssk') @
       [Rmtree tempDir]"
    by blast
  let ?lo = "path_join tempDir (basename (outfile args))"
  let ?pre = "S3DownloadFileobj (bucket args) (pickle args) #
       GdalOpen (''/vsis3/'' @ bucket args @ ''/'' @ infile args) #
       Mkdtemp #
       Finalize (''/vsis3/'' @ bucket args @ ''/'' @ infile args) ?lo
         (build_tileFilenames (bucket args) (tileprefix args) (colRowList d))
         (tileInfo d) (overlapsize args) tempDir True #
       fst (tileCleanup args en
         (build_tileFilenames (bucket args) (tileprefix args) (colRowList d))) @
       fst (defaultStats args en m) @
       DelLocalDs #
       fst (perSegmentStats args en ?lo (make_concurrencyStyle args)) @
       fst (perSegmentSpatialStats args en ?lo (make_concurrencyStyle args))"
  let ?ks1 = "case sk' of None \<Rightarrow> [] | Some k \<Rightarrow> [k]"
  let ?ks2 = "case ssk' of None \<Rightarrow> [] | Some k \<Rightarrow> [k]"
  from stats_key_of_locator [OF s1]
  have k1: "stats args = None \<and> ?ks1 = [] \<or>
      (\<exists>bkt k. stats args = Some (bkt @ CHR '':'' # k) \<and> CHR '':'' \<notin> set bkt \<and>
         CHR '':'' \<notin> set k \<and> ?ks1 = [k])"
    by auto
  from spatial_key_of_locator [OF s2]
  have k2: "spatialstats args = None \<and> ?ks2 = [] \<or>
      (\<exists>bkt k. spatialstats args = Some (bkt @ CHR '':'' # k) \<and> CHR '':'' \<notin> set bkt \<and>
         CHR '':'' \<notin> set k \<and> ?ks2 = [k])"
    by auto
  from k1 have c1: "stats args = None \<longleftrightarrow> sk' = None" by (cases sk') auto
  from k2 have c2: "spatialstats args = None \<longleftrightarrow> ssk' = None" by (cases ssk') auto
  have fc: "fst (finalCleanup args en sk' ssk') =
      (if noremove args then []
       else [S3DeleteObjects (bucket args) (pickle args # ?ks1 @ ?ks2)])"
    using finalCleanup_trace [OF _ c1 c2, of en] finalCleanup_kept [of args en sk' ssk']
    by (cases "noremove args") simp_all
  have t: "fst (main args en) =
      ?pre @ S3UploadFile ?lo (bucket args) (outfile args) #
        (if noremove args then []
         else [S3DeleteObjects (bucket args) (pickle args # ?ks1 @ ?ks2)]) @
        [Rmtree tempDir]"
    unfolding tr fc by simp
  have p: "\<forall>e \<in> set ?pre. \<not> is_upload e"
    using stage_no_upload [of args en] by (auto simp: is_upload_def)
  from t p k1 k2 show ?thesis
    by blast
qed

subsection \<open>C7: the final cleanup\<close>

text \<open>
  Claim C7. In a run that completes without \<open>--noremove\<close>, the upload of the output
  file is followed by exactly one delete call, on the bucket of the command line, and then
  by the removal of the temporary directory; the keys deleted are the pickle key, then the
  key part of the \<open>--stats\<close> locator if that option was given, then the key part of the
  \<open>--spatialstats\<close> locator if that option was given. With \<open>--noremove\<close> the final
  cleanup does nothing: the upload is followed by the removal of the temporary directory
  alone, and no run contains a delete call.
\<close>

theorem final_cleanup:
  "(noremove args \<longrightarrow>
      finalCleanup args en sk ssk = ([], Inr ()) \<and>
      (\<forall>e \<in> set (fst (main args en)). \<not> is_delete e)) \<and>
   (snd (main args en) = Inr () \<longrightarrow>
      (\<exists>pre localOutfile tempDir ks1 ks2.
         fst (main args en) =
           pre @ S3UploadFile localOutfile (bucket args) (outfile args) #
             (if noremove args then []
              else [S3DeleteObjects (bucket args) (pickle args # ks1 @ ks2)]) @
             [Rmtree tempDir] \<and>
         (\<forall>e \<in> set pre. \<not> is_upload e) \<and>
         (stats args = None \<and> ks1 = [] \<or>
          (\<exists>bkt k. stats args = Some (bkt @ CHR '':'' # k) \<and> CHR '':'' \<notin> set bkt \<and>
             CHR '':'' \<notin> set k \<and> ks1 = [k])) \<and>
         (spatialstats args = None \<and> ks2 = [] \<or>
          (\<exists>bkt k. spatialstats args = Some (bkt @ CHR '':'' # k) \<and> CHR '':'' \<notin> set bkt \<and>
             CHR '':'' \<notin> set k \<and> ks2 = [k]))))"
proof (intro conjI impI)
  assume "noremove args"
  then show "finalCleanup args en sk ssk = ([], Inr ())"
    by (rule finalCleanup_kept)
next
  assume n: "noremove args"
  show "\<forall>e \<in> set (fst (main args en)). \<not> is_delete e"
  proof
    fix e assume e: "e \<in> set (fst (main args en))"
    from main_events [OF e] n show "\<not> is_delete e"
      by (auto simp: is_delete_def
          dest!: tileCleanup_events defaultStats_events perSegmentStats_events
            perSegmentSpatialStats_events finalCleanup_events)
  qed
next
  assume "snd (main args en) = Inr ()"
  then show "(\<exists>pre localOutfile tempDir ks1 ks2.
         fst (main args en) =
           pre @ S3UploadFile localOutfile (bucket args) (outfile args) #
             (if noremove args then []
              else [S3DeleteObjects (bucket args) (pickle args # ks1 @ ks2)]) @
             [Rmtree tempDir] \<and>
         (\<forall>e \<in> set pre. \<not> is_upload e) \<and>
         (stats args = None \<and> ks1 = [] \<or>
          (\<exists>bkt k. stats args = Some (bkt @ CHR '':'' # k) \<and> CHR '':'' \<notin> set bkt \<and>
             CHR '':'' \<notin> set k \<and> ks1 = [k])) \<and>
         (spatialstats args = None \<and> ks2 = [] \<or>
          (\<exists>bkt k. spatialstats args = Some (bkt @ CHR '':'' # k) \<and> CHR '':'' \<notin> set bkt \<and>
             CHR '':'' \<notin> set k \<and> ks2 = [k])))"
    by (rule main_success_tail)
qed

theorem final_cleanup_witness:
  "snd (main example_args example_env) = Inr () \<and> \<not> noremove example_args \<and>
   (\<exists>pre. fst (main example_args example_env) =
      pre @ [S3UploadFile ''/tmp/x/seg.kea'' ''b'' ''out/seg.kea'',
             S3DeleteObjects ''b'' [''prep.pkl'', ''s.json'', ''sp.json''],
             Rmtree ''/tmp/x''] \<and> list_all (\<lambda>e. \<not> is_upload e) pre) \<and>
   noremove (example_args \<lparr> noremove := True \<rparr>) \<and>
   finalCleanup (example_args \<lparr> noremove := True \<rparr>) example_env
     (Some ''s.json'') (Some ''sp.json'') = ([], Inr ())"
proof -
  have ok: "snd (main example_args example_env) = Inr ()"
    by (simp add: example_run)
  have nr: "\<not> noremove example_args"
    and b: "bucket example_args = ''b''"
    and out: "outfile example_args = ''out/seg.kea''"
    and p: "pickle example_args = ''prep.pkl''"
    by (simp_all add: example_args_def)
  from final_cleanup [of example_args example_env None None, THEN conjunct2, rule_format, OF ok]
  obtain pre localOutfile tempDir ks1 ks2 where
    tr: "fst (main example_args example_env) =
           pre @ S3UploadFile localOutfile (bucket example_args) (outfile example_args) #
             (if noremove example_args then []
              else [S3DeleteObjects (bucket example_args) (pickle example_args # ks1 @ ks2)]) @
             [Rmtree tempDir]"
    and pre: "\<forall>e \<in> set pre. \<not> is_upload e"
    by blast
  from tr have "rev (fst (main example_args example_env)) =
      Rmtree tempDir # S3DeleteObjects ''b'' (''prep.pkl'' # ks1 @ ks2) #
      S3UploadFile localOutfile ''b'' ''out/seg.kea'' # rev pre"
    by (simp add: nr b out p)
  then have "tempDir = ''/tmp/x'' \<and> ''prep.pkl'' # ks1 @ ks2 = [''prep.pkl'', ''s.json'', ''sp.json''] \<and>
      localOutfile = ''/tmp/x/seg.kea''"
    by (simp add: example_run)
  with tr pre have g: "\<exists>pre. fst (main example_args example_env) =
      pre @ [S3UploadFile ''/tmp/x/seg.kea'' ''b'' ''out/seg.kea'',
             S3DeleteObjects ''b'' [''prep.pkl'', ''s.json'', ''sp.json''],
             Rmtree ''/tmp/x''] \<and> list_all (\<lambda>e. \<not> is_upload e) pre"
    by (auto simp: nr b out p list_all_iff)
  have k: "noremove (example_args \<lparr> noremove := True \<rparr>)" by simp
  from final_cleanup [of "example_args \<lparr> noremove := True \<rparr>" example_env
      "Some ''s.json''" "Some ''sp.json''", THEN conjunct1, rule_format, OF k, THEN conjunct1]
  have c: "finalCleanup (example_args \<lparr> noremove := True \<rparr>) example_env
     (Some ''s.json'') (Some ''sp.json'') = ([], Inr ())" .
  from ok nr g k c show ?thesis by (intro conjI)
qed

subsection \<open>Buckets of downloads and deletes\<close>

lemma main_deletes_bucket:
  "S3DeleteObjects bkt ks \<in> set (fst (main args en)) \<Longrightarrow> bkt = bucket args"
  by (drule main_events)
     (auto dest!: tileCleanup_events defaultStats_events perSegmentStats_events
        perSegmentSpatialStats_events finalCleanup_events)

lemma main_downloads:
  "S3DownloadFileobj bkt k \<in> set (fst (main args en)) \<Longrightarrow>
   (bkt = bucket args \<and> k = pickle args) \<or>
   (CHR '':'' \<notin> set bkt \<and> CHR '':'' \<notin> set k \<and>
    (stats args = Some (bkt @ CHR '':'' # k) \<or> spatialstats args = Some (bkt @ CHR '':'' # k)))"
  by (drule main_events)
     (auto simp: split_on_two_iff
        dest!: tileCleanup_events defaultStats_events perSegmentStats_events
        perSegmentSpatialStats_events finalCleanup_events)

lemma locator_unique:
  "bkt @ CHR '':'' # k = bkt' @ CHR '':'' # k' \<Longrightarrow> CHR '':'' \<notin> set bkt \<Longrightarrow>
   CHR '':'' \<notin> set bkt' \<Longrightarrow> bkt = bkt' \<and> k = k'"
  using sep_unique [of "CHR '':''" bkt bkt' k k'] by simp

lemma main_successE:
  assumes "snd (main args en) = Inr ()"
  obtains (run) d tempDir maxSegId hasEmptySegments sk ssk where
    "pickle_at en (bucket args) (pickle args) = Some d"
    "mkdtemp_result en = Some tempDir"
    "finalize_result en (build_tileFilenames (bucket args) (tileprefix args) (colRowList d))
       = Some (maxSegId, hasEmptySegments)"
    "snd (tileCleanup args en
       (build_tileFilenames (bucket args) (tileprefix args) (colRowList d))) = Inr ()"
    "snd (defaultStats args en maxSegId) = Inr ()"
    "snd (perSegmentStats args en (path_join tempDir (basename (outfile args)))
       (make_concurrencyStyle args)) = Inr sk"
    "snd (perSegmentSpatialStats args en (path_join tempDir (basename (outfile args)))
       (make_concurrencyStyle args)) = Inr ssk"
    "snd (finalCleanup args en sk ssk) = Inr ()"
    "fst (main args en) =
       S3DownloadFileobj (bucket args) (pickle args) #
       GdalOpen (''/vsis3/'' @ bucket args @ ''/'' @ infile args) #
       Mkdtemp #
       Finalize (''/vsis3/'' @ bucket args @ ''/'' @ infile args)
         (path_join tempDir (basename (outfile args)))
         (build_tileFilenames (bucket args) (tileprefix args) (colRowList d))
         (tileInfo d) (overlapsize args) tempDir True #
       fst (tileCleanup args en
         (build_tileFilenames (bucket args) (tileprefix args) (colRowList d))) @
       fst (defaultStats args en maxSegId) @
       DelLocalDs #
       fst (perSegmentStats args en (path_join tempDir (basename (outfile args)))
         (make_concurrencyStyle args)) @
       fst (perSegmentSpatialStats args en (path_join tempDir (basename (outfile args)))
         (make_concurrencyStyle args)) @
       S3UploadFile (path_join tempDir (basename (outfile args))) (bucket args) (outfile args) #
       fst (finalCleanup args en sk ssk) @
       [Rmtree tempDir]"
  using main_success [OF assms] by blast

lemma main_success_stats_download:
  assumes ok: "snd (main args en) = Inr ()"
    and loc: "stats args = Some (sb @ CHR '':'' # sk)"
    and c: "CHR '':'' \<notin> set sb" "CHR '':'' \<notin> set sk"
  shows "S3DownloadFileobj sb sk \<in> set (fst (main args en))"
  using ok
proof (cases rule: main_successE)
  case (run d tempDir maxSegId hasEmptySegments sk' ssk')
  from c have sp: "split_on CHR '':'' (sb @ CHR '':'' # sk) = [sb, sk]"
    by (simp add: split_on_two_iff)
  from perSegmentStats_success [OF run(6)] loc sp
  have "S3DownloadFileobj sb sk \<in> set (fst (perSegmentStats args en
       (path_join tempDir (basename (outfile args))) (make_concurrencyStyle args)))"
    by auto
  then show ?thesis by (simp add: run(9))
qed

lemma main_success_spatial_download:
  assumes ok: "snd (main args en) = Inr ()"
    and loc: "spatialstats args = Some (sb @ CHR '':'' # sk)"
    and c: "CHR '':'' \<notin> set sb" "CHR '':'' \<notin> set sk"
  shows "S3DownloadFileobj sb sk \<in> set (fst (main args en))"
  using ok
proof (cases rule: main_successE)
  case (run d tempDir maxSegId hasEmptySegments sk' ssk')
  from c have sp: "split_on CHR '':'' (sb @ CHR '':'' # sk) = [sb, sk]"
    by (simp add: split_on_two_iff)
  from perSegmentSpatialStats_success [OF run(7)] loc sp
  have "S3DownloadFileobj sb sk \<in> set (fst (perSegmentSpatialStats args en
       (path_join tempDir (basename (outfile args))) (make_concurrencyStyle args)))"
    by auto
  then show ?thesis by (simp add: run(9))
qed

lemma main_success_final_delete:
  assumes ok: "snd (main args en) = Inr ()" and nr: "\<not> noremove args"
    and loc: "stats args = Some (sb @ CHR '':'' # sk) \<or>
              spatialstats args = Some (sb @ CHR '':'' # sk)"
    and c: "CHR '':'' \<notin> set sb"
  shows "\<exists>pre localOutfile ks post.
     fst (main args en) =
       pre @ S3UploadFile localOutfile (bucket args) (outfile args) #
         S3DeleteObjects (bucket args) ks # post \<and>
     (\<forall>e \<in> set pre. \<not> is_upload e) \<and> sk \<in> set ks"
proof -
  from main_success_tail [OF ok] obtain pre localOutfile tempDir ks1 ks2 where
    tr: "fst (main args en) =
           pre @ S3UploadFile localOutfile (bucket args) (outfile args) #
             (if noremove args then []
              else [S3DeleteObjects (bucket args) (pickle args # ks1 @ ks2)]) @
             [Rmtree tempDir]"
    and pre: "\<forall>e \<in> set pre. \<not> is_upload e"
    and k1: "stats args = None \<and> ks1 = [] \<or>
          (\<exists>bkt k. stats args = Some (bkt @ CHR '':'' # k) \<and> CHR '':'' \<notin> set bkt \<and>
             CHR '':'' \<notin> set k \<and> ks1 = [k])"
    and k2: "spatialstats args = None \<and> ks2 = [] \<or>
          (\<exists>bkt k. spatialstats args = Some (bkt @ CHR '':'' # k) \<and> CHR '':'' \<notin> set bkt \<and>
             CHR '':'' \<notin> set k \<and> ks2 = [k])"
    by blast
  from loc k1 k2 c have "sk \<in> set (pickle args # ks1 @ ks2)"
    by (auto dest: locator_unique)
  moreover from tr nr have "fst (main args en) =
           pre @ S3UploadFile localOutfile (bucket args) (outfile args) #
             S3DeleteObjects (bucket args) (pickle args # ks1 @ ks2) # [Rmtree tempDir]"
    by simp
  ultimately show ?thesis using pre by blast
qed


subsection \<open>C9: a request document in another bucket\<close>

text \<open>
  Claim C9. Every delete call of every run is issued on the bucket of the command line,
  and every download other than the pickle's is issued on the bucket and key that a
  locator \<open>bucket:key\<close> names. So when the \<open>--stats\<close> or \<open>--spatialstats\<close> locator
  names a bucket other than the main one, a run that completes downloads the request
  document from the locator's bucket, never deletes anything in that bucket, and (unless
  \<open>--noremove\<close>) passes the document's key to the delete call that follows the upload,
  which is issued on the main bucket.
\<close>

theorem cross_bucket_locator:
  "(\<forall>bkt ks. S3DeleteObjects bkt ks \<in> set (fst (main args en)) \<longrightarrow> bkt = bucket args) \<and>
   (\<forall>bkt k. S3DownloadFileobj bkt k \<in> set (fst (main args en)) \<longrightarrow>
      (bkt = bucket args \<and> k = pickle args) \<or>
      (CHR '':'' \<notin> set bkt \<and> CHR '':'' \<notin> set k \<and>
       (stats args = Some (bkt @ CHR '':'' # k) \<or>
        spatialstats args = Some (bkt @ CHR '':'' # k)))) \<and>
   (snd (main args en) = Inr () \<and>
    (stats args = Some (sb @ CHR '':'' # sk) \<or> spatialstats args = Some (sb @ CHR '':'' # sk)) \<and>
    CHR '':'' \<notin> set sb \<and> CHR '':'' \<notin> set sk \<and> sb \<noteq> bucket args \<longrightarrow>
      S3DownloadFileobj sb sk \<in> set (fst (main args en)) \<and>
      (\<forall>ks. S3DeleteObjects sb ks \<notin> set (fst (main args en))) \<and>
      (\<not> noremove args \<longrightarrow>
         (\<exists>pre localOutfile ks post.
            fst (main args en) =
              pre @ S3UploadFile localOutfile (bucket args) (outfile args) #
                S3DeleteObjects (bucket args) ks # post \<and>
            (\<forall>e \<in> set pre. \<not> is_upload e) \<and> sk \<in> set ks)))"
proof (intro conjI allI impI)
  fix bkt ks assume "S3DeleteObjects bkt ks \<in> set (fst (main args en))"
  then show "bkt = bucket args" by (rule main_deletes_bucket)
next
  fix bkt k assume "S3DownloadFileobj bkt k \<in> set (fst (main args en))"
  then show "(bkt = bucket args \<and> k = pickle args) \<or>
      (CHR '':'' \<notin> set bkt \<and> CHR '':'' \<notin> set k \<and>
       (stats args = Some (bkt @ CHR '':'' # k) \<or>
        spatialstats args = Some (bkt @ CHR '':'' # k)))"
    by (rule main_downloads)
next
  assume a: "snd (main args en) = Inr () \<and>
    (stats args = Some (sb @ CHR '':'' # sk) \<or> spatialstats args = Some (sb @ CHR '':'' # sk)) \<and>
    CHR '':'' \<notin> set sb \<and> CHR '':'' \<notin> set sk \<and> sb \<noteq> bucket args"
  then show "S3DownloadFileobj sb sk \<in> set (fst (main args en))"
    using main_success_stats_download [of args en sb sk]
      main_success_spatial_download [of args en sb sk]
    by blast
next
  fix ks
  assume a: "snd (main args en) = Inr () \<and>
    (stats args = Some (sb @ CHR '':'' # sk) \<or> spatialstats args = Some (sb @ CHR '':'' # sk)) \<and>
    CHR '':'' \<notin> set sb \<and> CHR '':'' \<notin> set sk \<and> sb \<noteq> bucket args"
  then show "S3DeleteObjects sb ks \<notin> set (fst (main args en))"
    using main_deletes_bucket [of sb ks args en] by blast
next
  assume a: "snd (main args en) = Inr () \<and>
    (stats args = Some (sb @ CHR '':'' # sk) \<or> spatialstats args = Some (sb @ CHR '':'' # sk)) \<and>
    CHR '':'' \<notin> set sb \<and> CHR '':'' \<notin> set sk \<and> sb \<noteq> bucket args"
    and nr: "\<not> noremove args"
  from a have ok: "snd (main args en) = Inr ()"
    and loc: "stats args = Some (sb @ CHR '':'' # sk) \<or>
              spatialstats args = Some (sb @ CHR '':'' # sk)"
    and c: "CHR '':'' \<notin> set sb"
    by simp_all
  show "\<exists>pre localOutfile ks post.
            fst (main args en) =
              pre @ S3UploadFile localOutfile (bucket args) (outfile args) #
                S3DeleteObjects (bucket args) ks # post \<and>
            (\<forall>e \<in> set pre. \<not> is_upload e) \<and> sk \<in> set ks"
    by (rule main_success_final_delete [OF ok nr loc c])
qed

theorem cross_bucket_locator_witness:
  "snd (main example_args example_env) = Inr () \<and>
   stats example_args = Some (''sb'' @ CHR '':'' # ''s.json'') \<and>
   ''sb'' \<noteq> bucket example_args \<and> \<not> noremove example_args \<and>
   S3DownloadFileobj ''sb'' ''s.json'' \<in> set (fst (main example_args example_env)) \<and>
   (\<exists>pre localOutfile ks post.
      fst (main example_args example_env) =
        pre @ S3UploadFile localOutfile (bucket example_args) (outfile example_args) #
          S3DeleteObjects (bucket example_args) ks # post \<and>
      list_all (\<lambda>e. \<not> is_upload e) pre \<and> ''s.json'' \<in> set ks)"
proof -
  have ok: "snd (main example_args example_env) = Inr ()"
    by (simp add: example_run)
  have loc: "stats example_args = Some (''sb'' @ CHR '':'' # ''s.json'')"
    and nb: "''sb'' \<noteq> bucket example_args"
    and nr: "\<not> noremove example_args"
    by (simp_all add: example_args_def)
  have c: "CHR '':'' \<notin> set ''sb''" "CHR '':'' \<notin> set ''s.json''"
    by simp_all
  note t = cross_bucket_locator [of example_args example_env "''sb''" "''s.json''",
      THEN conjunct2, THEN conjunct2, rule_format]
  have hyp: "snd (main example_args example_env) = Inr () \<and>
    (stats example_args = Some (''sb'' @ CHR '':'' # ''s.json'') \<or>
     spatialstats example_args = Some (''sb'' @ CHR '':'' # ''s.json'')) \<and>
    CHR '':'' \<notin> set ''sb'' \<and> CHR '':'' \<notin> set ''s.json'' \<and> ''sb'' \<noteq> bucket example_args"
    using ok loc c nb by blast
  from t [OF hyp] have d: "S3DownloadFileobj ''sb'' ''s.json''
      \<in> set (fst (main example_args example_env))"
    by blast
  from t [OF hyp] nr have "\<exists>pre localOutfile ks post.
      fst (main example_args example_env) =
        pre @ S3UploadFile localOutfile (bucket example_args) (outfile example_args) #
          S3DeleteObjects (bucket example_args) ks # post \<and>
      (\<forall>e \<in> set pre. \<not> is_upload e) \<and> ''s.json'' \<in> set ks"
    by blast
  then have e: "\<exists>pre localOutfile ks post.
      fst (main example_args example_env) =
        pre @ S3UploadFile localOutfile (bucket example_args) (outfile example_args) #
          S3DeleteObjects (bucket example_args) ks # post \<and>
      list_all (\<lambda>e. \<not> is_upload e) pre \<and> ''s.json'' \<in> set ks"
    by (simp only: list_all_iff)
  from ok loc nb nr d e show ?thesis by (intro conjI)
qed

subsection \<open>Runs stage by stage\<close>

lemma main_events_staged:
  assumes "e \<in> set (fst (main args en))"
  shows "e = S3DownloadFileobj (bucket args) (pickle args) \<or>
     e = GdalOpen (''/vsis3/'' @ bucket args @ ''/'' @ infile args) \<or>
     e = Mkdtemp \<or>
     (\<exists>d tempDir.
        pickle_at en (bucket args) (pickle args) = Some d \<and> mkdtemp_result en = Some tempDir \<and>
        (e = Finalize (''/vsis3/'' @ bucket args @ ''/'' @ infile args)
               (path_join tempDir (basename (outfile args)))
               (build_tileFilenames (bucket args) (tileprefix args) (colRowList d))
               (tileInfo d) (overlapsize args) tempDir True \<or>
         (\<exists>maxSegId hasEmptySegments.
            finalize_result en
              (build_tileFilenames (bucket args) (tileprefix args) (colRowList d))
              = Some (maxSegId, hasEmptySegments) \<and>
            (e \<in> set (fst (tileCleanup args en
                 (build_tileFilenames (bucket args) (tileprefix args) (colRowList d)))) \<or>
             e \<in> set (fst (defaultStats args en maxSegId)) \<or>
             e = DelLocalDs \<or>
             e \<in> set (fst (perSegmentStats args en
                 (path_join tempDir (basename (outfile args))) (make_concurrencyStyle args))) \<or>
             (\<exists>sk.
                snd (perSegmentStats args en (path_join tempDir (basename (outfile args)))
                   (make_concurrencyStyle args)) = Inr sk \<and>
                (e \<in> set (fst (perSegmentSpatialStats args en
                    (path_join tempDir (basename (outfile args)))
                    (make_concurrencyStyle args))) \<or>
                 (\<exists>ssk.
                    snd (perSegmentSpatialStats args en
                       (path_join tempDir (basename (outfile args)))
                       (make_concurrencyStyle args)) = Inr ssk \<and>
                    (e = S3UploadFile (path_join tempDir (basename (outfile args)))
                          (bucket args) (outfile args) \<or>
                     e \<in> set (fst (finalCleanup args en sk ssk)) \<or>
                     e = Rmtree tempDir))))))))"
  using assms unfolding main_def Let_def
  by (simp add: in_then_do_iff split: prod.splits) blast

lemma then_do_call_ok [simp]:
  "call_ok en e \<Longrightarrow> then_do (call en e) f = (e # fst (f ()), snd (f ()))"
  by (simp add: then_do_def)

lemma then_do_call_ret_Some [simp]:
  "then_do (call_ret e (Some v)) f = (e # fst (f v), snd (f v))"
  by (simp add: then_do_def)

lemma then_do_emit [simp]: "then_do (emit e) f = (e # fst (f ()), snd (f ()))"
  by (simp add: then_do_def)

lemma main_reaches_close:
  assumes "DelLocalDs \<in> set (fst (main args en))"
  obtains (closed) d tempDir maxSegId hasEmptySegments where
    "pickle_at en (bucket args) (pickle args) = Some d"
    "mkdtemp_result en = Some tempDir"
    "finalize_result en (build_tileFilenames (bucket args) (tileprefix args) (colRowList d))
       = Some (maxSegId, hasEmptySegments)"
    "snd (tileCleanup args en
       (build_tileFilenames (bucket args) (tileprefix args) (colRowList d))) = Inr ()"
    "snd (defaultStats args en maxSegId) = Inr ()"
    "main args en =
       then_do
         (S3DownloadFileobj (bucket args) (pickle args) #
          GdalOpen (''/vsis3/'' @ bucket args @ ''/'' @ infile args) #
          Mkdtemp #
          Finalize (''/vsis3/'' @ bucket args @ ''/'' @ infile args)
            (path_join tempDir (basename (outfile args)))
            (build_tileFilenames (bucket args) (tileprefix args) (colRowList d))
            (tileInfo d) (overlapsize args) tempDir True #
          fst (tileCleanup args en
            (build_tileFilenames (bucket args) (tileprefix args) (colRowList d))) @
          fst (defaultStats args en maxSegId) @ [DelLocalDs], Inr ())
         (\<lambda>_.
       then_do (perSegmentStats args en (path_join tempDir (basename (outfile args)))
         (make_concurrencyStyle args)) (\<lambda>sk.
       then_do (perSegmentSpatialStats args en (path_join tempDir (basename (outfile args)))
         (make_concurrencyStyle args)) (\<lambda>ssk.
       then_do (call en (S3UploadFile (path_join tempDir (basename (outfile args)))
         (bucket args) (outfile args))) (\<lambda>_.
       then_do (finalCleanup args en sk ssk) (\<lambda>_.
       call en (Rmtree tempDir))))))"
proof -
  have nt: "DelLocalDs \<notin> set (fst (tileCleanup args en d))" for d
    by (auto dest: tileCleanup_events)
  have nd: "DelLocalDs \<notin> set (fst (defaultStats args en m))" for m
    by (auto dest: defaultStats_events)
  from assms obtain d where p: "pickle_at en (bucket args) (pickle args) = Some d"
    unfolding main_def by (cases "pickle_at en (bucket args) (pickle args)") auto
  from assms p have g: "call_ok en (GdalOpen (''/vsis3/'' @ bucket args @ ''/'' @ infile args))"
    unfolding main_def Let_def by (auto simp: in_then_do_iff split: if_splits)
  from assms p g obtain tempDir where t: "mkdtemp_result en = Some tempDir"
    unfolding main_def Let_def by (auto simp: in_then_do_iff split: if_splits)
  let ?tf = "build_tileFilenames (bucket args) (tileprefix args) (colRowList d)"
  from assms p g t obtain maxSegId hasEmptySegments where
    f: "finalize_result en ?tf = Some (maxSegId, hasEmptySegments)"
    unfolding main_def Let_def by (auto simp: in_then_do_iff split: if_splits)
  from assms p g t f have tc: "snd (tileCleanup args en ?tf) = Inr ()"
    unfolding main_def Let_def using nt by (auto simp: in_then_do_iff split: if_splits)
  from assms p g t f tc have ds: "snd (defaultStats args en maxSegId) = Inr ()"
    unfolding main_def Let_def using nt nd by (auto simp: in_then_do_iff split: if_splits)
  show ?thesis
    using p g t f tc ds by (intro that [OF p t f tc ds]) (simp add: main_def Let_def)
qed


lemma parse_locator_bad:
  assumes "count_list loc CHR '':'' \<noteq> 1"
  shows "\<exists>msg. parse_locator loc = ([], Inl (ValueError msg))"
proof -
  have "length (split_on CHR '':'' loc) = Suc (count_list loc CHR '':'')"
    by (rule length_split_on)
  with assms have "length (split_on CHR '':'' loc) \<noteq> 2" by simp
  with unpack2_cases [of "split_on CHR '':'' loc"] show ?thesis
    by (auto simp: parse_locator_def)
qed

lemma parse_locator_good:
  assumes "count_list loc CHR '':'' = 1"
  shows "\<exists>b k. loc = b @ CHR '':'' # k \<and> CHR '':'' \<notin> set b \<and> CHR '':'' \<notin> set k \<and>
     parse_locator loc = ([], Inr (b, k))"
proof -
  have "length (split_on CHR '':'' loc) = Suc (count_list loc CHR '':'')"
    by (rule length_split_on)
  with assms have "length (split_on CHR '':'' loc) = 2" by simp
  with unpack2_cases [of "split_on CHR '':'' loc"]
  obtain b k where sp: "split_on CHR '':'' loc = [b, k]" by auto
  then have "loc = b @ CHR '':'' # k \<and> CHR '':'' \<notin> set b \<and> CHR '':'' \<notin> set k"
    by (simp add: split_on_two_iff)
  moreover from sp have "parse_locator loc = ([], Inr (b, k))"
    by (simp add: parse_locator_def)
  ultimately show ?thesis by blast
qed

lemma perSegmentStats_bad:
  "stats args = Some loc \<Longrightarrow> count_list loc CHR '':'' \<noteq> 1 \<Longrightarrow>
   \<exists>msg. perSegmentStats args en lo cs = ([], Inl (ValueError msg))"
  using parse_locator_bad [of loc] by (auto simp: perSegmentStats_def)

lemma perSegmentSpatialStats_bad:
  "spatialstats args = Some loc \<Longrightarrow> count_list loc CHR '':'' \<noteq> 1 \<Longrightarrow>
   \<exists>msg. perSegmentSpatialStats args en lo cs = ([], Inl (ValueError msg))"
  using parse_locator_bad [of loc] by (auto simp: perSegmentSpatialStats_def)

lemma perSegmentStats_good:
  "stats args = Some loc \<Longrightarrow> count_list loc CHR '':'' = 1 \<Longrightarrow>
   \<exists>b k rest. loc = b @ CHR '':'' # k \<and>
     fst (perSegmentStats args en lo cs) = S3DownloadFileobj b k # rest"
  using parse_locator_good [of loc] by (auto simp: perSegmentStats_def fst_then_do)

lemma perSegmentSpatialStats_good:
  "spatialstats args = Some loc \<Longrightarrow> count_list loc CHR '':'' = 1 \<Longrightarrow>
   \<exists>b k rest. loc = b @ CHR '':'' # k \<and>
     fst (perSegmentSpatialStats args en lo cs) = S3DownloadFileobj b k # rest"
  using parse_locator_good [of loc] by (auto simp: perSegmentSpatialStats_def fst_then_do)

lemma main_bad_stats_locator:
  assumes loc: "stats args = Some loc" and bad: "count_list loc CHR '':'' \<noteq> 1"
  shows "snd (main args en) \<noteq> Inr ()"
    and "e \<in> set (fst (main args en)) \<Longrightarrow> \<not> is_aggregate_call e \<and> \<not> is_spatial_call e \<and>
      (\<forall>b k. e = S3DownloadFileobj b k \<longrightarrow> b = bucket args \<and> k = pickle args)"
    and "DelLocalDs \<in> set (fst (main args en)) \<Longrightarrow>
      \<exists>pre msg. main args en = (pre @ [DelLocalDs], Inl (ValueError msg))"
proof -
  have st: "\<exists>msg. perSegmentStats args en lo cs = ([], Inl (ValueError msg))" for lo cs
    using loc bad by (rule perSegmentStats_bad)
  show "snd (main args en) \<noteq> Inr ()"
  proof
    assume "snd (main args en) = Inr ()"
    then show False
    proof (cases rule: main_successE)
      case (run d tempDir maxSegId hasEmptySegments sk ssk)
      with st [of "path_join tempDir (basename (outfile args))" "make_concurrencyStyle args"]
      show False by auto
    qed
  qed
  show "\<not> is_aggregate_call e \<and> \<not> is_spatial_call e \<and>
      (\<forall>b k. e = S3DownloadFileobj b k \<longrightarrow> b = bucket args \<and> k = pickle args)"
    if e: "e \<in> set (fst (main args en))"
  proof -
    have st1: "fst (perSegmentStats args en lo cs) = []" for lo cs
      using st [of lo cs] by auto
    have st2: "snd (perSegmentStats args en lo cs) \<noteq> Inr sk" for lo cs sk
      using st [of lo cs] by auto
    from main_events_staged [OF e] show ?thesis
      by (auto simp: is_aggregate_call_def is_spatial_call_def st1 st2
          dest!: tileCleanup_events defaultStats_events)
  qed
  show "\<exists>pre msg. main args en = (pre @ [DelLocalDs], Inl (ValueError msg))"
    if "DelLocalDs \<in> set (fst (main args en))"
    using that
  proof (cases rule: main_reaches_close)
    case (closed d tempDir maxSegId hasEmptySegments)
    from st [of "path_join tempDir (basename (outfile args))" "make_concurrencyStyle args"]
    obtain msg where "perSegmentStats args en (path_join tempDir (basename (outfile args)))
        (make_concurrencyStyle args) = ([], Inl (ValueError msg))"
      by blast
    with closed(6) show ?thesis by simp
  qed
qed


lemma main_bad_spatial_locator:
  assumes loc: "spatialstats args = Some loc" and bad: "count_list loc CHR '':'' \<noteq> 1"
  shows "snd (main args en) \<noteq> Inr ()"
    and "e \<in> set (fst (main args en)) \<Longrightarrow>
      \<not> is_spatial_call e \<and> (\<forall>m. e \<noteq> ImportModule m) \<and> \<not> is_upload e \<and>
      (\<forall>b k. e = S3DownloadFileobj b k \<longrightarrow>
         (b = bucket args \<and> k = pickle args) \<or> stats args = Some (b @ CHR '':'' # k))"
    and "DelLocalDs \<in> set (fst (main args en)) \<Longrightarrow> mkdtemp_result en = Some dir \<Longrightarrow>
      snd (perSegmentStats args en (path_join dir (basename (outfile args)))
        (make_concurrencyStyle args)) = Inr sk \<Longrightarrow>
      \<exists>pre msg. main args en =
        (pre @ DelLocalDs # fst (perSegmentStats args en
           (path_join dir (basename (outfile args))) (make_concurrencyStyle args)),
         Inl (ValueError msg))"
proof -
  have st: "\<exists>msg. perSegmentSpatialStats args en lo cs = ([], Inl (ValueError msg))" for lo cs
    using loc bad by (rule perSegmentSpatialStats_bad)
  have st1: "fst (perSegmentSpatialStats args en lo cs) = []" for lo cs
    using st [of lo cs] by auto
  have st2: "snd (perSegmentSpatialStats args en lo cs) \<noteq> Inr ssk" for lo cs ssk
    using st [of lo cs] by auto
  show "snd (main args en) \<noteq> Inr ()"
  proof
    assume "snd (main args en) = Inr ()"
    then show False
    proof (cases rule: main_successE)
      case (run d tempDir maxSegId hasEmptySegments sk ssk)
      with st2 show False by blast
    qed
  qed
  show "\<not> is_spatial_call e \<and> (\<forall>m. e \<noteq> ImportModule m) \<and> \<not> is_upload e \<and>
      (\<forall>b k. e = S3DownloadFileobj b k \<longrightarrow>
         (b = bucket args \<and> k = pickle args) \<or> stats args = Some (b @ CHR '':'' # k))"
    if e: "e \<in> set (fst (main args en))"
    using main_events_staged [OF e]
    by (auto simp: is_spatial_call_def is_upload_def st1 st2 split_on_two_iff
        dest!: tileCleanup_events defaultStats_events perSegmentStats_events)
  show "\<exists>pre msg. main args en =
        (pre @ DelLocalDs # fst (perSegmentStats args en
           (path_join dir (basename (outfile args))) (make_concurrencyStyle args)),
         Inl (ValueError msg))"
    if "DelLocalDs \<in> set (fst (main args en))" and dir: "mkdtemp_result en = Some dir"
      and ok: "snd (perSegmentStats args en (path_join dir (basename (outfile args)))
        (make_concurrencyStyle args)) = Inr sk"
    using that(1)
  proof (cases rule: main_reaches_close)
    case (closed d tempDir maxSegId hasEmptySegments)
    from closed(2) dir have td: "tempDir = dir" by simp
    from st [of "path_join dir (basename (outfile args))" "make_concurrencyStyle args"]
    obtain msg where "perSegmentSpatialStats args en (path_join dir (basename (outfile args)))
        (make_concurrencyStyle args) = ([], Inl (ValueError msg))"
      by blast
    with closed(6) ok show ?thesis by (simp add: td)
  qed
qed

subsection \<open>C10: a locator needs exactly one colon\<close>

text \<open>
  Claim C10. A \<open>--stats\<close> or \<open>--spatialstats\<close> locator is split at its colons and
  assigned to two names. With one colon the stage starts by downloading the key after the
  colon from the bucket before it. With no colon, or two or more, the assignment raises
  \<open>ValueError\<close> before the stage has made any call, and the run does not complete: for
  a bad \<open>--stats\<close> locator no trace holds a statistics call of either kind or a download
  other than the pickle's, and a run that got as far as closing the raster ends right there
  with the \<open>ValueError\<close>; for a bad \<open>--spatialstats\<close> locator no trace holds a
  spatial statistics call, a module import, an upload, or a download other than the
  pickle's and the \<open>--stats\<close> document's, and a run whose aggregate stage returned ends
  with the \<open>ValueError\<close> right after that stage.
\<close>

theorem locator_parsing:
  "(stats args = Some loc \<and> count_list loc CHR '':'' \<noteq> 1 \<longrightarrow>
      (\<exists>msg. perSegmentStats args en lo cs = ([], Inl (ValueError msg))) \<and>
      snd (main args en) \<noteq> Inr () \<and>
      (\<forall>e \<in> set (fst (main args en)).
         \<not> is_aggregate_call e \<and> \<not> is_spatial_call e \<and>
         (\<forall>b k. e = S3DownloadFileobj b k \<longrightarrow> b = bucket args \<and> k = pickle args)) \<and>
      (DelLocalDs \<in> set (fst (main args en)) \<longrightarrow>
         (\<exists>pre msg. main args en = (pre @ [DelLocalDs], Inl (ValueError msg))))) \<and>
   (stats args = Some loc \<and> count_list loc CHR '':'' = 1 \<longrightarrow>
      (\<exists>b k rest. loc = b @ CHR '':'' # k \<and>
         fst (perSegmentStats args en lo cs) = S3DownloadFileobj b k # rest)) \<and>
   (spatialstats args = Some loc \<and> count_list loc CHR '':'' \<noteq> 1 \<longrightarrow>
      (\<exists>msg. perSegmentSpatialStats args en lo cs = ([], Inl (ValueError msg))) \<and>
      snd (main args en) \<noteq> Inr () \<and>
      (\<forall>e \<in> set (fst (main args en)).
         \<not> is_spatial_call e \<and> (\<forall>m. e \<noteq> ImportModule m) \<and> \<not> is_upload e \<and>
         (\<forall>b k. e = S3DownloadFileobj b k \<longrightarrow>
            (b = bucket args \<and> k = pickle args) \<or> stats args = Some (b @ CHR '':'' # k))) \<and>
      (\<forall>dir sk. DelLocalDs \<in> set (fst (main args en)) \<and> mkdtemp_result en = Some dir \<and>
         snd (perSegmentStats args en (path_join dir (basename (outfile args)))
           (make_concurrencyStyle args)) = Inr sk \<longrightarrow>
         (\<exists>pre msg. main args en =
            (pre @ DelLocalDs # fst (perSegmentStats args en
               (path_join dir (basename (outfile args))) (make_concurrencyStyle args)),
             Inl (ValueError msg))))) \<and>
   (spatialstats args = Some loc \<and> count_list loc CHR '':'' = 1 \<longrightarrow>
      (\<exists>b k rest. loc = b @ CHR '':'' # k \<and>
         fst (perSegmentSpatialStats args en lo cs) = S3DownloadFileobj b k # rest))"
  using perSegmentStats_bad [where args = args and loc = loc and en = en and lo = lo and cs = cs]
    perSegmentSpatialStats_bad
      [where args = args and loc = loc and en = en and lo = lo and cs = cs]
    perSegmentStats_good [where args = args and loc = loc and en = en and lo = lo and cs = cs]
    perSegmentSpatialStats_good
      [where args = args and loc = loc and en = en and lo = lo and cs = cs]
    main_bad_stats_locator [where args = args and loc = loc and en = en]
    main_bad_spatial_locator [where args = args and loc = loc and en = en]
  by (intro conjI impI ballI allI) blast+


lemma example_bad_run:
  "main (example_args \<lparr> stats := Some ''s.json'' \<rparr>) example_env =
     ([S3DownloadFileobj ''b'' ''prep.pkl'',
       GdalOpen ''/vsis3/b/in.tif'',
       Mkdtemp,
       Finalize ''/vsis3/b/in.tif'' ''/tmp/x/seg.kea''
         [((0, 0), ''/vsis3/b/run1_0_0.tif''), ((0, 1), ''/vsis3/b/run1_0_1.tif''),
          ((1, 0), ''/vsis3/b/run1_1_0.tif''), ((1, 1), ''/vsis3/b/run1_1_1.tif'')]
         PyNone 5 ''/tmp/x'' True,
       S3DeleteObjects ''b''
         [''run1_0_0.tif'', ''run1_0_1.tif'', ''run1_1_0.tif'', ''run1_1_1.tif''],
       GetRasterBand 1, GetDefaultRAT, GetColOfUsage_PixelCount, RatReadAsArray,
       EstimateStatsFromHisto (PyList [PyInt 3]), WriteRandomColourTable 42, AddOverviews,
       DelLocalDs],
      Inl (ValueError ''not enough values to unpack (expected 2, got 1)''))"
  by (simp add: main_def Let_def example_args_def example_env_def example_tiles
      tileCleanup_def tile_objs_def tile_key_def format_tile_def str_int_small
      delete_loop_short defaultStats_def make_concurrencyStyle_def
      perSegmentStats_def parse_locator_def unpack2_def basename_def path_join_def)

theorem locator_parsing_witness:
  "stats (example_args \<lparr> stats := Some ''s.json'' \<rparr>) = Some ''s.json'' \<and>
   count_list ''s.json'' CHR '':'' \<noteq> 1 \<and>
   DelLocalDs \<in> set (fst (main (example_args \<lparr> stats := Some ''s.json'' \<rparr>) example_env)) \<and>
   snd (main (example_args \<lparr> stats := Some ''s.json'' \<rparr>) example_env) \<noteq> Inr () \<and>
   (\<exists>pre msg. main (example_args \<lparr> stats := Some ''s.json'' \<rparr>) example_env =
      (pre @ [DelLocalDs], Inl (ValueError msg))) \<and>
   spatialstats (example_args \<lparr> spatialstats := Some ''b:sp:json'' \<rparr>) = Some ''b:sp:json'' \<and>
   count_list ''b:sp:json'' CHR '':'' \<noteq> 1 \<and>
   snd (main (example_args \<lparr> spatialstats := Some ''b:sp:json'' \<rparr>) example_env) \<noteq> Inr () \<and>
   stats example_args = Some ''sb:s.json'' \<and> count_list ''sb:s.json'' CHR '':'' = 1 \<and>
   (\<exists>b k rest. ''sb:s.json'' = b @ CHR '':'' # k \<and>
      fst (perSegmentStats example_args example_env ''/tmp/x/seg.kea''
        (make_concurrencyStyle example_args)) = S3DownloadFileobj b k # rest)"
proof -
  let ?bad = "example_args \<lparr> stats := Some ''s.json'' \<rparr>"
  let ?bad2 = "example_args \<lparr> spatialstats := Some ''b:sp:json'' \<rparr>"
  have a1: "stats ?bad = Some ''s.json''" by simp
  have a2: "count_list ''s.json'' CHR '':'' \<noteq> 1" by simp
  have a3: "DelLocalDs \<in> set (fst (main ?bad example_env))"
    by (simp add: example_bad_run)
  have b1: "spatialstats ?bad2 = Some ''b:sp:json''" by simp
  have b2: "count_list ''b:sp:json'' CHR '':'' \<noteq> 1" by simp
  have c1: "stats example_args = Some ''sb:s.json''" by (simp add: example_args_def)
  have c2: "count_list ''sb:s.json'' CHR '':'' = 1" by simp
  note t1 = locator_parsing [of ?bad "''s.json''" example_env "''/tmp/x/seg.kea''"
      "make_concurrencyStyle example_args", THEN conjunct1, rule_format, OF conjI, OF a1 a2]
  note t2 = locator_parsing [of ?bad2 "''b:sp:json''" example_env "''/tmp/x/seg.kea''"
      "make_concurrencyStyle example_args", THEN conjunct2, THEN conjunct2, THEN conjunct1,
      rule_format, OF conjI, OF b1 b2]
  note t3 = locator_parsing [of example_args "''sb:s.json''" example_env "''/tmp/x/seg.kea''"
      "make_concurrencyStyle example_args", THEN conjunct2, THEN conjunct1,
      rule_format, OF conjI, OF c1 c2]
  from t1 have d1: "snd (main ?bad example_env) \<noteq> Inr ()" by blast
  from t1 a3 have d2: "\<exists>pre msg. main ?bad example_env =
      (pre @ [DelLocalDs], Inl (ValueError msg))" by blast
  from t2 have d3: "snd (main ?bad2 example_env) \<noteq> Inr ()" by blast
  from a1 a2 a3 d1 d2 b1 b2 d3 c1 c2 t3 show ?thesis by (intro conjI)
qed

subsection \<open>The user function name\<close>

lemma split_on_last_part:
  assumes "c \<notin> set f"
  shows "split_on c (m @ c # f) = split_on c m @ [f]"
  using assms by (simp add: split_on_append split_on_absent)

lemma resolve_userFunc_unqualified:
  "CHR ''.'' \<notin> set name \<Longrightarrow> resolve_userFunc en name = ([], Inl (ValueError fq_message))"
  by (simp add: resolve_userFunc_def split_on_absent throw_def)

lemma resolve_userFunc_qualified:
  assumes "CHR ''.'' \<notin> set f"
  shows "resolve_userFunc en (m @ CHR ''.'' # f) =
     then_do (call_ret (ImportModule m) (modules en m)) (\<lambda>modl.
       (case modl f of
          None \<Rightarrow> throw (ValueError (notfound_message f m))
        | Some userFunc \<Rightarrow> ret userFunc))"
proof -
  have sp: "split_on CHR ''.'' (m @ CHR ''.'' # f) = split_on CHR ''.'' m @ [f]"
    using assms by (rule split_on_last_part)
  have len: "\<not> length (split_on CHR ''.'' m @ [f]) < 2"
    using split_on_nonempty [of "CHR ''.''" m]
    by (cases "split_on CHR ''.'' m") simp_all
  have j: "join ''.'' (split_on CHR ''.'' m) = m"
    by (rule join_split_on)
  show ?thesis
    unfolding resolve_userFunc_def Let_def sp butlast_snoc last_snoc j using len by simp
qed

lemma fq_message_says:
  "\<exists>a b. fq_message = a @ ''must be a fully qualified function name'' @ b"
proof -
  have "fq_message =
      (CHR 0x27 # ''userFunc'' @ CHR 0x27 # '' '') @
      ''must be a fully qualified function name'' @
      ''. ie. modulename.function_name. eg. pyshepseg.tilingstats.userFuncVariogram''"
    by (simp add: fq_message_def)
  then show ?thesis by blast
qed

subsection \<open>C4: resolving the user function\<close>

text \<open>
  Claim C4. A user function name without a dot is refused with a \<open>ValueError\<close> (the
  exception that stands for the specification's configuration error) whose message says
  that the name must be a fully qualified function name, before any module is imported.
  A name with a dot is split at its last dot into module path and function name; the
  module path is imported; if the import returns a module without an attribute of that
  name, a \<open>ValueError\<close> naming the function and the module is raised; if the attribute
  exists, it is the result, and it is what the spatial statistics call is given.
\<close>

theorem callback_resolution:
  "(CHR ''.'' \<notin> set name \<longrightarrow>
      resolve_userFunc en name = ([], Inl (ValueError fq_message))) \<and>
   (\<exists>a b. fq_message = a @ ''must be a fully qualified function name'' @ b) \<and>
   (CHR ''.'' \<in> set name \<longrightarrow> (\<exists>m f. name = m @ CHR ''.'' # f \<and> CHR ''.'' \<notin> set f)) \<and>
   (\<forall>m f. name = m @ CHR ''.'' # f \<and> CHR ''.'' \<notin> set f \<longrightarrow>
      (modules en m = None \<longrightarrow>
         resolve_userFunc en name = ([ImportModule m], Inl (Raised (ImportModule m)))) \<and>
      (\<forall>modl. modules en m = Some modl \<and> modl f = None \<longrightarrow>
         resolve_userFunc en name =
           ([ImportModule m],
            Inl (ValueError (''Cannot find function '' @ f @ '' in module '' @ m)))) \<and>
      (\<forall>modl userFunc. modules en m = Some modl \<and> modl f = Some userFunc \<longrightarrow>
         resolve_userFunc en name = ([ImportModule m], Inr userFunc) \<and>
         fst (spatial_loop en lo cs [(img, bandnum, colInfo, PyStr name, param)]) =
           [ImportModule m,
            CalcPerSegmentSpatialStatsRIOS img bandnum lo colInfo userFunc param cs]))"
proof (intro conjI impI allI)
  assume "CHR ''.'' \<notin> set name"
  then show "resolve_userFunc en name = ([], Inl (ValueError fq_message))"
    by (rule resolve_userFunc_unqualified)
next
  show "\<exists>a b. fq_message = a @ ''must be a fully qualified function name'' @ b"
    by (rule fq_message_says)
next
  assume "CHR ''.'' \<in> set name"
  then show "\<exists>m f. name = m @ CHR ''.'' # f \<and> CHR ''.'' \<notin> set f"
    by (rule split_list_last)
next
  fix m f
  assume a: "name = m @ CHR ''.'' # f \<and> CHR ''.'' \<notin> set f" and n: "modules en m = None"
  then show "resolve_userFunc en name = ([ImportModule m], Inl (Raised (ImportModule m)))"
    by (simp add: resolve_userFunc_qualified call_ret_def)
next
  fix m f modl
  assume a: "name = m @ CHR ''.'' # f \<and> CHR ''.'' \<notin> set f"
    and n: "modules en m = Some modl \<and> modl f = None"
  then show "resolve_userFunc en name =
           ([ImportModule m],
            Inl (ValueError (''Cannot find function '' @ f @ '' in module '' @ m)))"
    by (simp add: resolve_userFunc_qualified notfound_message_def throw_def)
next
  fix m f modl userFunc
  assume a: "name = m @ CHR ''.'' # f \<and> CHR ''.'' \<notin> set f"
    and n: "modules en m = Some modl \<and> modl f = Some userFunc"
  then show "resolve_userFunc en name = ([ImportModule m], Inr userFunc)"
    by (simp add: resolve_userFunc_qualified ret_def)
next
  fix m f modl userFunc
  assume a: "name = m @ CHR ''.'' # f \<and> CHR ''.'' \<notin> set f"
    and n: "modules en m = Some modl \<and> modl f = Some userFunc"
  then have "resolve_userFunc en name = ([ImportModule m], Inr userFunc)"
    by (simp add: resolve_userFunc_qualified ret_def)
  then show "fst (spatial_loop en lo cs [(img, bandnum, colInfo, PyStr name, param)]) =
           [ImportModule m,
            CalcPerSegmentSpatialStatsRIOS img bandnum lo colInfo userFunc param cs]"
    by (simp add: fst_then_do split: sum.splits)
qed

theorem callback_resolution_witness:
  "CHR ''.'' \<notin> set ''myfunc'' \<and>
   resolve_userFunc example_env ''myfunc'' = ([], Inl (ValueError fq_message)) \<and>
   ''mypkg.other'' = ''mypkg'' @ CHR ''.'' # ''other'' \<and> CHR ''.'' \<notin> set ''other'' \<and>
   resolve_userFunc example_env ''mypkg.other'' =
     ([ImportModule ''mypkg''],
      Inl (ValueError ''Cannot find function other in module mypkg'')) \<and>
   ''mypkg.myfunc'' = ''mypkg'' @ CHR ''.'' # ''myfunc'' \<and> CHR ''.'' \<notin> set ''myfunc'' \<and>
   resolve_userFunc example_env ''mypkg.myfunc'' =
     ([ImportModule ''mypkg''], Inr (PyFunction ''myfunc''))"
proof -
  have a: "CHR ''.'' \<notin> set ''myfunc''" by simp
  have b: "''mypkg.other'' = ''mypkg'' @ CHR ''.'' # ''other'' \<and> CHR ''.'' \<notin> set ''other''"
    by simp
  have c: "''mypkg.myfunc'' = ''mypkg'' @ CHR ''.'' # ''myfunc'' \<and> CHR ''.'' \<notin> set ''myfunc''"
    by simp
  obtain modl where modl: "modules example_env ''mypkg'' = Some modl"
    and f1: "modl ''other'' = None" and f2: "modl ''myfunc'' = Some (PyFunction ''myfunc'')"
    by (simp add: example_env_def)
  from callback_resolution [of "''myfunc''" example_env, THEN conjunct1, rule_format, OF a]
  have r1: "resolve_userFunc example_env ''myfunc'' = ([], Inl (ValueError fq_message))" .
  from callback_resolution [of "''mypkg.other''" example_env, THEN conjunct2, THEN conjunct2,
      THEN conjunct2, rule_format, OF b, THEN conjunct2, THEN conjunct1, rule_format,
      OF conjI, OF modl f1]
  have r2: "resolve_userFunc example_env ''mypkg.other'' =
     ([ImportModule ''mypkg''],
      Inl (ValueError ''Cannot find function other in module mypkg''))"
    by simp
  from callback_resolution [of "''mypkg.myfunc''" example_env, THEN conjunct2, THEN conjunct2,
      THEN conjunct2, rule_format, OF c, THEN conjunct2, THEN conjunct2, rule_format,
      OF conjI, OF modl f2, THEN conjunct1]
  have r3: "resolve_userFunc example_env ''mypkg.myfunc'' =
     ([ImportModule ''mypkg''], Inr (PyFunction ''myfunc''))" .
  from a r1 b r2 c r3 show ?thesis by simp
qed

subsection \<open>The raster handle along a run\<close>

lemma safe_from_append:
  "safe_from s (xs @ ys) \<longleftrightarrow> safe_from s xs \<and> safe_from (foldl handle_after s xs) ys"
  by (induction xs arbitrary: s) auto

lemma safe_from_split:
  "safe_from s (pre @ e # post) \<Longrightarrow>
   (is_stats_call e \<longrightarrow> foldl handle_after s pre = HandleClosed) \<and>
   open_handles (foldl handle_after s pre) e \<le> 1"
  by (simp add: safe_from_append)

lemma quiet_events:
  assumes "\<forall>e \<in> set xs. \<not> is_finalize e \<and> e \<noteq> DelLocalDs \<and> \<not> is_stats_call e"
  shows "foldl handle_after s xs = s" and "safe_from s xs"
  using assms
  by (induction xs arbitrary: s) (auto simp: handle_after_def open_handles_def)

lemma closed_events:
  assumes "\<forall>e \<in> set xs. \<not> is_finalize e"
  shows "foldl handle_after HandleClosed xs = HandleClosed" and "safe_from HandleClosed xs"
  using assms
  by (induction xs) (auto simp: handle_after_def open_handles_def)

lemma handle_after_Open:
  "handle_after s x = HandleOpen \<Longrightarrow> is_finalize x \<or> s = HandleOpen"
  by (auto simp: handle_after_def split: if_splits handle_state.splits)

lemma handle_after_Closed:
  "handle_after s x = HandleClosed \<Longrightarrow>
   \<not> is_finalize x \<and> (s = HandleClosed \<or> (s = HandleOpen \<and> x = DelLocalDs))"
  by (auto simp: handle_after_def split: if_splits handle_state.splits)

lemma handle_open_history:
  "foldl handle_after NoHandle pre = HandleOpen \<Longrightarrow>
   \<exists>a fin b. pre = a @ fin # b \<and> is_finalize fin"
proof (induction pre rule: rev_induct)
  case Nil
  then show ?case by simp
next
  case (snoc x xs)
  from snoc.prems have "handle_after (foldl handle_after NoHandle xs) x = HandleOpen"
    by simp
  from handle_after_Open [OF this] show ?case
  proof
    assume "is_finalize x"
    then have "xs @ [x] = xs @ x # [] \<and> is_finalize x" by simp
    then show ?thesis by blast
  next
    assume "foldl handle_after NoHandle xs = HandleOpen"
    from snoc.IH [OF this] obtain a fin b where "xs = a @ fin # b" "is_finalize fin"
      by blast
    then have "xs @ [x] = a @ fin # (b @ [x]) \<and> is_finalize fin" by simp
    then show ?thesis by blast
  qed
qed

lemma handle_closed_history:
  "foldl handle_after NoHandle pre = HandleClosed \<Longrightarrow>
   \<exists>a fin b c. pre = a @ fin # b @ DelLocalDs # c \<and> is_finalize fin"
proof (induction pre rule: rev_induct)
  case Nil
  then show ?case by simp
next
  case (snoc x xs)
  from snoc.prems have "handle_after (foldl handle_after NoHandle xs) x = HandleClosed"
    by simp
  from handle_after_Closed [OF this]
  have "foldl handle_after NoHandle xs = HandleClosed \<or>
      (foldl handle_after NoHandle xs = HandleOpen \<and> x = DelLocalDs)"
    by simp
  then show ?case
  proof
    assume "foldl handle_after NoHandle xs = HandleClosed"
    from snoc.IH [OF this] obtain a fin b c where
      "xs = a @ fin # b @ DelLocalDs # c" "is_finalize fin"
      by blast
    then have "xs @ [x] = a @ fin # b @ DelLocalDs # (c @ [x]) \<and> is_finalize fin" by simp
    then show ?thesis by blast
  next
    assume h: "foldl handle_after NoHandle xs = HandleOpen \<and> x = DelLocalDs"
    then have "foldl handle_after NoHandle xs = HandleOpen" by simp
    from handle_open_history [OF this] obtain a fin b where
      "xs = a @ fin # b" "is_finalize fin"
      by blast
    with h have "xs @ [x] = a @ fin # b @ DelLocalDs # [] \<and> is_finalize fin"
      by simp
    then show ?thesis by blast
  qed
qed


lemma stage_then:
  assumes "stage_ok s m s1" and "\<And>x. snd m = Inr x \<Longrightarrow> stage_ok s1 (f x) s2"
  shows "stage_ok s (then_do m f) s2"
  using assms
  by (cases "snd m") (auto simp: stage_ok_def safe_from_append)

lemma stage_prod:
  assumes "\<And>a b. x = (a, b) \<Longrightarrow> stage_ok s (f a b) s'"
  shows "stage_ok s (case x of (a, b) \<Rightarrow> f a b) s'"
  using assms by (cases x) simp

lemma quiet_stage:
  assumes "\<forall>e \<in> set (fst m). \<not> is_finalize e \<and> e \<noteq> DelLocalDs \<and> \<not> is_stats_call e"
  shows "stage_ok s m s"
  using quiet_events [OF assms] by (simp add: stage_ok_def)

lemma closed_stage:
  assumes "\<forall>e \<in> set (fst m). \<not> is_finalize e"
  shows "stage_ok HandleClosed m HandleClosed"
  using closed_events [OF assms] by (simp add: stage_ok_def)

lemma main_stage_ok: "stage_ok NoHandle (main args en) HandleClosed"
  unfolding main_def Let_def
proof (intro stage_then stage_prod)
  show "stage_ok NoHandle
     (call_ret (S3DownloadFileobj (bucket args) (pickle args))
        (pickle_at en (bucket args) (pickle args))) NoHandle"
    by (rule quiet_stage)
       (simp add: is_finalize_def is_stats_call_def is_aggregate_call_def is_spatial_call_def)
next
  show "stage_ok NoHandle (call en (GdalOpen (''/vsis3/'' @ bucket args @ ''/'' @ infile args)))
     NoHandle"
    by (rule quiet_stage)
       (simp add: is_finalize_def is_stats_call_def is_aggregate_call_def is_spatial_call_def)
next
  show "stage_ok NoHandle (call_ret Mkdtemp (mkdtemp_result en)) NoHandle"
    by (rule quiet_stage)
       (simp add: is_finalize_def is_stats_call_def is_aggregate_call_def is_spatial_call_def)
next
  fix d tempDir
  show "stage_ok NoHandle
     (call_ret
        (Finalize (''/vsis3/'' @ bucket args @ ''/'' @ infile args)
           (path_join tempDir (basename (outfile args)))
           (build_tileFilenames (bucket args) (tileprefix args) (colRowList d))
           (tileInfo d) (overlapsize args) tempDir True)
        (finalize_result en
           (build_tileFilenames (bucket args) (tileprefix args) (colRowList d))))
     HandleOpen"
    by (simp add: stage_ok_def is_finalize_def is_stats_call_def is_aggregate_call_def
        is_spatial_call_def open_handles_def handle_after_def)
next
  fix d :: prep
  show "stage_ok HandleOpen
     (tileCleanup args en
        (build_tileFilenames (bucket args) (tileprefix args) (colRowList d))) HandleOpen"
    by (rule quiet_stage)
       (auto simp: is_finalize_def is_stats_call_def is_aggregate_call_def is_spatial_call_def
          dest!: tileCleanup_events)
next
  fix maxSegId
  show "stage_ok HandleOpen (defaultStats args en maxSegId) HandleOpen"
    by (rule quiet_stage)
       (auto simp: is_finalize_def is_stats_call_def is_aggregate_call_def is_spatial_call_def
          dest!: defaultStats_events)
next
  show "stage_ok HandleOpen (emit DelLocalDs) HandleClosed"
    by (simp add: stage_ok_def is_finalize_def is_stats_call_def is_aggregate_call_def
        is_spatial_call_def open_handles_def handle_after_def)
next
  fix tempDir
  show "stage_ok HandleClosed
     (perSegmentStats args en (path_join tempDir (basename (outfile args)))
        (make_concurrencyStyle args)) HandleClosed"
    by (rule closed_stage) (auto simp: is_finalize_def dest!: perSegmentStats_events)
next
  fix tempDir
  show "stage_ok HandleClosed
     (perSegmentSpatialStats args en (path_join tempDir (basename (outfile args)))
        (make_concurrencyStyle args)) HandleClosed"
    by (rule closed_stage) (auto simp: is_finalize_def dest!: perSegmentSpatialStats_events)
next
  fix tempDir
  show "stage_ok HandleClosed
     (call en (S3UploadFile (path_join tempDir (basename (outfile args))) (bucket args)
        (outfile args))) HandleClosed"
    by (rule closed_stage) (simp add: is_finalize_def)
next
  fix sk ssk
  show "stage_ok HandleClosed (finalCleanup args en sk ssk) HandleClosed"
    by (rule closed_stage) (auto simp: is_finalize_def dest!: finalCleanup_events)
next
  fix tempDir
  show "stage_ok HandleClosed (call en (Rmtree tempDir)) HandleClosed"
    by (rule closed_stage) (simp add: is_finalize_def)
qed


subsection \<open>C1: statistics only after the raster is closed\<close>

text \<open>
  Claim C1. In every run, whatever fails, a per-segment statistics call or a spatial
  statistics call is made only when the handle that the finalisation returned has been
  closed: the calls before it contain the finalisation and, later, \<open>del localDs\<close>.
  At every call of the run at most one handle on the output raster is open, counting the
  handle \<open>main\<close> holds and the handle an engine has open during its own call.
\<close>

theorem handle_discipline:
  "\<forall>pre e post. fst (main args en) = pre @ e # post \<longrightarrow>
     (is_stats_call e \<longrightarrow>
        handle_of pre = HandleClosed \<and>
        (\<exists>a fin b c. pre = a @ fin # b @ DelLocalDs # c \<and> is_finalize fin)) \<and>
     open_handles (handle_of pre) e \<le> 1"
proof (intro allI impI)
  fix pre e post
  assume tr: "fst (main args en) = pre @ e # post"
  have "safe_from NoHandle (fst (main args en))"
    using main_stage_ok [of args en] by (simp add: stage_ok_def)
  with tr have "safe_from NoHandle (pre @ e # post)" by simp
  from safe_from_split [OF this]
  have st: "is_stats_call e \<longrightarrow> handle_of pre = HandleClosed"
    and op: "open_handles (handle_of pre) e \<le> 1"
    by (simp_all add: handle_of_def)
  have "\<exists>a fin b c. pre = a @ fin # b @ DelLocalDs # c \<and> is_finalize fin"
    if "is_stats_call e"
  proof -
    from st that have "foldl handle_after NoHandle pre = HandleClosed"
      by (simp add: handle_of_def)
    then show ?thesis by (rule handle_closed_history)
  qed
  with st op show "(is_stats_call e \<longrightarrow>
        handle_of pre = HandleClosed \<and>
        (\<exists>a fin b c. pre = a @ fin # b @ DelLocalDs # c \<and> is_finalize fin)) \<and>
     open_handles (handle_of pre) e \<le> 1"
    by blast
qed

theorem handle_discipline_witness:
  "fst (main example_args example_env) =
     [S3DownloadFileobj ''b'' ''prep.pkl'',
      GdalOpen ''/vsis3/b/in.tif'',
      Mkdtemp,
      Finalize ''/vsis3/b/in.tif'' ''/tmp/x/seg.kea''
        [((0, 0), ''/vsis3/b/run1_0_0.tif''), ((0, 1), ''/vsis3/b/run1_0_1.tif''),
         ((1, 0), ''/vsis3/b/run1_1_0.tif''), ((1, 1), ''/vsis3/b/run1_1_1.tif'')]
        PyNone 5 ''/tmp/x'' True,
      S3DeleteObjects ''b''
        [''run1_0_0.tif'', ''run1_0_1.tif'', ''run1_1_0.tif'', ''run1_1_1.tif''],
      GetRasterBand 1, GetDefaultRAT, GetColOfUsage_PixelCount, RatReadAsArray,
      EstimateStatsFromHisto (PyList [PyInt 3]), WriteRandomColourTable 42, AddOverviews,
      DelLocalDs,
      S3DownloadFileobj ''sb'' ''s.json''] @
     CalcPerSegmentStatsRIOS (PyStr ''img.tif'') (PyInt 1) ''/tmp/x/seg.kea''
       (PyList [PyStr ''mean'']) (make_concurrencyStyle example_args) #
     [S3DownloadFileobj ''b'' ''sp.json'',
      ImportModule ''mypkg'',
      CalcPerSegmentSpatialStatsRIOS (PyStr ''img.tif'') (PyInt 1) ''/tmp/x/seg.kea''
        (PyList []) (PyFunction ''myfunc'') (PyInt 7) (make_concurrencyStyle example_args),
      S3UploadFile ''/tmp/x/seg.kea'' ''b'' ''out/seg.kea'',
      S3DeleteObjects ''b'' [''prep.pkl'', ''s.json'', ''sp.json''],
      Rmtree ''/tmp/x''] \<and>
   is_stats_call
     (CalcPerSegmentStatsRIOS (PyStr ''img.tif'') (PyInt 1) ''/tmp/x/seg.kea''
        (PyList [PyStr ''mean'']) (make_concurrencyStyle example_args)) \<and>
   handle_of
     [S3DownloadFileobj ''b'' ''prep.pkl'',
      GdalOpen ''/vsis3/b/in.tif'',
      Mkdtemp,
      Finalize ''/vsis3/b/in.tif'' ''/tmp/x/seg.kea''
        [((0, 0), ''/vsis3/b/run1_0_0.tif''), ((0, 1), ''/vsis3/b/run1_0_1.tif''),
         ((1, 0), ''/vsis3/b/run1_1_0.tif''), ((1, 1), ''/vsis3/b/run1_1_1.tif'')]
        PyNone 5 ''/tmp/x'' True,
      S3DeleteObjects ''b''
        [''run1_0_0.tif'', ''run1_0_1.tif'', ''run1_1_0.tif'', ''run1_1_1.tif''],
      GetRasterBand 1, GetDefaultRAT, GetColOfUsage_PixelCount, RatReadAsArray,
      EstimateStatsFromHisto (PyList [PyInt 3]), WriteRandomColourTable 42, AddOverviews,
      DelLocalDs,
      S3DownloadFileobj ''sb'' ''s.json''] = HandleClosed \<and>
   open_handles HandleClosed
     (CalcPerSegmentStatsRIOS (PyStr ''img.tif'') (PyInt 1) ''/tmp/x/seg.kea''
        (PyList [PyStr ''mean'']) (make_concurrencyStyle example_args)) \<le> 1"
proof -
  let ?pre = "[S3DownloadFileobj ''b'' ''prep.pkl'',
      GdalOpen ''/vsis3/b/in.tif'',
      Mkdtemp,
      Finalize ''/vsis3/b/in.tif'' ''/tmp/x/seg.kea''
        [((0, 0), ''/vsis3/b/run1_0_0.tif''), ((0, 1), ''/vsis3/b/run1_0_1.tif''),
         ((1, 0), ''/vsis3/b/run1_1_0.tif''), ((1, 1), ''/vsis3/b/run1_1_1.tif'')]
        PyNone 5 ''/tmp/x'' True,
      S3DeleteObjects ''b''
        [''run1_0_0.tif'', ''run1_0_1.tif'', ''run1_1_0.tif'', ''run1_1_1.tif''],
      GetRasterBand 1, GetDefaultRAT, GetColOfUsage_PixelCount, RatReadAsArray,
      EstimateStatsFromHisto (PyList [PyInt 3]), WriteRandomColourTable 42, AddOverviews,
      DelLocalDs,
      S3DownloadFileobj ''sb'' ''s.json'']"
  let ?e = "CalcPerSegmentStatsRIOS (PyStr ''img.tif'') (PyInt 1) ''/tmp/x/seg.kea''
       (PyList [PyStr ''mean'']) (make_concurrencyStyle example_args)"
  let ?post = "[S3DownloadFileobj ''b'' ''sp.json'',
      ImportModule ''mypkg'',
      CalcPerSegmentSpatialStatsRIOS (PyStr ''img.tif'') (PyInt 1) ''/tmp/x/seg.kea''
        (PyList []) (PyFunction ''myfunc'') (PyInt 7) (make_concurrencyStyle example_args),
      S3UploadFile ''/tmp/x/seg.kea'' ''b'' ''out/seg.kea'',
      S3DeleteObjects ''b'' [''prep.pkl'', ''s.json'', ''sp.json''],
      Rmtree ''/tmp/x'']"
  have cs: "make_concurrencyStyle example_args =
      \<lparr> numReadWorkers = 2, readBufferPopTimeout = Some 30,
        readBufferInsertTimeout = Some 30, computeBufferInsertTimeout = Some 30,
        computeBufferPopTimeout = Some 30 \<rparr>"
    by (simp add: make_concurrencyStyle_def example_args_def)
  have tr: "fst (main example_args example_env) = ?pre @ ?e # ?post"
    by (simp add: example_run cs)
  have st: "is_stats_call ?e"
    by (simp add: is_stats_call_def is_aggregate_call_def)
  from handle_discipline [of example_args example_env, rule_format, OF tr]
  have "(is_stats_call ?e \<longrightarrow> handle_of ?pre = HandleClosed \<and>
        (\<exists>a fin b c. ?pre = a @ fin # b @ DelLocalDs # c \<and> is_finalize fin)) \<and>
     open_handles (handle_of ?pre) ?e \<le> 1" .
  then have h0: "is_stats_call ?e \<longrightarrow> handle_of ?pre = HandleClosed \<and>
        (\<exists>a fin b c. ?pre = a @ fin # b @ DelLocalDs # c \<and> is_finalize fin)"
    and op: "open_handles (handle_of ?pre) ?e \<le> 1"
    by (rule conjunct1, rule conjunct2)
  from h0 [rule_format, OF st] have h: "handle_of ?pre = HandleClosed"
    by (rule conjunct1)
  from op have op': "open_handles HandleClosed ?e \<le> 1"
    by (simp only: h)
  from tr st h op' show ?thesis by (intro conjI)
qed

end
